theory Spec2Isabelle
  imports Complex_Main "HOL-Library.Sublist"
begin

section \<open>Python strings\<close>

text \<open>
  A Python \<open>str\<close> is modelled as a \<open>string\<close>, one \<open>char\<close> per code point. The model
  covers the code points below 256 (Latin-1), which is closed under \<open>str.lower\<close>; the
  character classes below are Python's \<open>str.isspace\<close>, the regular expression classes
  \<open>\s\<close>, \<open>\d\<close> and \<open>\w\<close>, and \<open>str.lower\<close>, restricted to that range.
  Python floats are modelled by exact rationals.
\<close>

definition is_space :: "char \<Rightarrow> bool" where
  "is_space c =
     (let n = (of_char c :: nat)
      in (9 \<le> n \<and> n \<le> 13) \<or> (28 \<le> n \<and> n \<le> 32) \<or> n = 133 \<or> n = 160)"

definition is_digit :: "char \<Rightarrow> bool" where
  "is_digit c = (let n = (of_char c :: nat) in 48 \<le> n \<and> n \<le> 57)"

definition lower_char :: "char \<Rightarrow> char" where
  "lower_char c =
     (let n = (of_char c :: nat)
      in if (65 \<le> n \<and> n \<le> 90) \<or> (192 \<le> n \<and> n \<le> 222 \<and> n \<noteq> 215)
         then char_of (n + 32) else c)"

text \<open>\<open>s.lower()\<close>\<close>

definition lower :: "string \<Rightarrow> string" where
  "lower s = map lower_char s"

text \<open>\<open>s.strip()\<close>\<close>

definition strip :: "string \<Rightarrow> string" where
  "strip s = rev (dropWhile is_space (rev (dropWhile is_space s)))"

text \<open>\<open>s.strip(chars)\<close>\<close>

definition strip_chars :: "string \<Rightarrow> string \<Rightarrow> string" where
  "strip_chars chars s =
     rev (dropWhile (\<lambda>c. c \<in> set chars) (rev (dropWhile (\<lambda>c. c \<in> set chars) s)))"

text \<open>\<open>s.split(d)\<close> for a one-character separator \<open>d\<close>\<close>

fun split_char :: "char \<Rightarrow> string \<Rightarrow> string list" where
  "split_char d [] = [[]]"
| "split_char d (c # cs) =
     (if c = d then [] # split_char d cs
      else (case split_char d cs of
              [] \<Rightarrow> [[c]]
            | l # ls \<Rightarrow> (c # l) # ls))"

text \<open>\<open>s.split()\<close>: the maximal runs of non-whitespace; the first argument is the word
  being read.\<close>

fun split_ws_from :: "string \<Rightarrow> string \<Rightarrow> string list" where
  "split_ws_from w [] = (if w = [] then [] else [w])"
| "split_ws_from w (c # cs) =
     (if is_space c then (if w = [] then split_ws_from [] cs else w # split_ws_from [] cs)
      else split_ws_from (w @ [c]) cs)"

definition split_ws :: "string \<Rightarrow> string list" where
  "split_ws s = split_ws_from [] s"

text \<open>\<open>p in s\<close>\<close>

fun py_in :: "string \<Rightarrow> string \<Rightarrow> bool" where
  "py_in p [] = (p = [])"
| "py_in p (c # cs) = (prefix p (c # cs) \<or> py_in p cs)"

text \<open>\<open>any(p in s for p in ps)\<close>\<close>

definition any_in :: "string list \<Rightarrow> string \<Rightarrow> bool" where
  "any_in ps s = list_ex (\<lambda>p. py_in p s) ps"

definition newline :: char where
  "newline = CHR 0x0A"

section \<open>The chain model (models.py)\<close>

datatype StepType = PREMISE | CONCLUSION | EVIDENCE | ASSUMPTION

datatype RelationshipType = SUPPORTS | CONTRADICTS | QUESTIONS | ELABORATES

text \<open>The values that occur in metadata and in the issue dictionaries.\<close>

datatype pyval =
    Str string
  | Num rat
  | Ids "int list"
  | Strs "string list"
  | Dict "(string \<times> string) list"

record ReasoningStep =
  step_id :: int
  step_text :: string
  step_type :: StepType
  step_confidence :: rat
  metadata :: "(string \<times> pyval) list"

record Relationship =
  source_id :: int
  target_id :: int
  rel_type :: RelationshipType
  rel_confidence :: rat

record ReasoningChain =
  steps :: "ReasoningStep list"
  relationships :: "Relationship list"

definition empty_chain :: ReasoningChain where
  "empty_chain = \<lparr>steps = [], relationships = []\<rparr>"

text \<open>\<open>add_step\<close> and \<open>add_relationship\<close> mutate the chain; the model returns the new chain
  (no caller uses the returned step or relationship).\<close>

definition add_step :: "ReasoningChain \<Rightarrow> string \<Rightarrow> StepType \<Rightarrow> ReasoningChain" where
  "add_step chain txt ty =
     chain\<lparr>steps := steps chain @
       [\<lparr>step_id = int (length (steps chain)) + 1, step_text = txt, step_type = ty,
         step_confidence = 1, metadata = []\<rparr>]\<rparr>"

definition add_relationship ::
  "ReasoningChain \<Rightarrow> int \<Rightarrow> int \<Rightarrow> RelationshipType \<Rightarrow> ReasoningChain" where
  "add_relationship chain src tgt ty =
     chain\<lparr>relationships := relationships chain @
       [\<lparr>source_id = src, target_id = tgt, rel_type = ty, rel_confidence = 1\<rparr>]\<rparr>"

definition get_step :: "ReasoningChain \<Rightarrow> int \<Rightarrow> ReasoningStep option" where
  "get_step chain i = find (\<lambda>s. step_id s = i) (steps chain)"

definition get_relationships :: "ReasoningChain \<Rightarrow> int \<Rightarrow> Relationship list" where
  "get_relationships chain i =
     filter (\<lambda>r. source_id r = i \<or> target_id r = i) (relationships chain)"

section \<open>The language capability\<close>

text \<open>
  The tokenizer is an external library. It is a parameter of the model: a function from a
  text to its tokens, each with surface text, lemma and the two flags the code reads.
\<close>

record token =
  tok_text :: string
  tok_lemma :: string
  is_stop :: bool
  is_punct :: bool

type_synonym nlp = "string \<Rightarrow> token list"

section \<open>The parser (parser.py)\<close>

text \<open>\<open>re.sub(r'^\s*\d+[.)]\s*', '', line)\<close>: the three character classes are disjoint, so
  the only candidate match is the greedy one at the start of the line.\<close>

definition strip_ordinal :: "string \<Rightarrow> string" where
  "strip_ordinal line =
     (let r = dropWhile is_space line;
          ds = takeWhile is_digit r;
          r2 = dropWhile is_digit r
      in (case r2 of
            [] \<Rightarrow> line
          | c # r3 \<Rightarrow>
              if ds \<noteq> [] \<and> (c = CHR ''.'' \<or> c = CHR '')'')
              then dropWhile is_space r3 else line))"

definition conclusion_indicators :: "string list" where
  "conclusion_indicators = [''therefore'', ''so'', ''thus'', ''hence'', ''as a result'']"

definition evidence_indicators :: "string list" where
  "evidence_indicators = [''because'', ''since'', ''as'', ''due to'']"

definition determine_step_type :: "string \<Rightarrow> StepType" where
  "determine_step_type txt =
     (let text_lower = lower txt
      in if any_in conclusion_indicators text_lower then CONCLUSION
         else if any_in evidence_indicators text_lower then EVIDENCE
         else PREMISE)"

definition negations :: "string list" where
  "negations = [''no'', ''not'', ''never'', ''none'', ''nobody'', ''nothing'', ''nowhere'',
     ''neither'', ''nor'']"

definition content_words :: "nlp \<Rightarrow> string \<Rightarrow> string set" where
  "content_words nlp txt =
     set (map tok_text (filter (\<lambda>t. \<not> is_stop t \<and> \<not> is_punct t) (nlp (lower txt))))"

definition are_contradictory :: "nlp \<Rightarrow> string \<Rightarrow> string \<Rightarrow> bool" where
  "are_contradictory nlp text1 text2 =
     (let words1 = content_words nlp text1;
          words2 = content_words nlp text2;
          has_neg1 = list_ex (\<lambda>neg. neg \<in> words1) negations;
          has_neg2 = list_ex (\<lambda>neg. neg \<in> words2) negations
      in if has_neg1 \<noteq> has_neg2 then
           (if card (words1 \<inter> words2) \<ge> 2 then True else False)
         else False)"

text \<open>The inner loop of \<open>_analyze_relationships\<close>, over the steps after \<open>step1\<close>.\<close>

fun relate_to_later ::
  "nlp \<Rightarrow> ReasoningStep \<Rightarrow> ReasoningStep list \<Rightarrow> ReasoningChain \<Rightarrow> ReasoningChain" where
  "relate_to_later nlp step1 [] chain = chain"
| "relate_to_later nlp step1 (step2 # rest) chain =
     relate_to_later nlp step1 rest
       (if are_contradictory nlp (step_text step1) (step_text step2)
        then add_relationship chain (step_id step1) (step_id step2) CONTRADICTS
        else chain)"

text \<open>The outer loop, over the steps in order.\<close>

fun relate_all :: "nlp \<Rightarrow> ReasoningStep list \<Rightarrow> ReasoningChain \<Rightarrow> ReasoningChain" where
  "relate_all nlp [] chain = chain"
| "relate_all nlp (step1 # rest) chain = relate_all nlp rest (relate_to_later nlp step1 rest chain)"

definition analyze_relationships :: "nlp \<Rightarrow> ReasoningChain \<Rightarrow> ReasoningChain" where
  "analyze_relationships nlp chain = relate_all nlp (steps chain) chain"

text \<open>The loop of \<open>parse_text\<close> over the non-blank lines.\<close>

fun parse_lines :: "string list \<Rightarrow> ReasoningChain \<Rightarrow> ReasoningChain" where
  "parse_lines [] chain = chain"
| "parse_lines (line # ls) chain =
     (let content = strip (strip_ordinal line)
      in parse_lines ls
           (if content \<noteq> [] then add_step chain content (determine_step_type content)
            else chain))"

definition parse_text :: "nlp \<Rightarrow> string \<Rightarrow> ReasoningChain" where
  "parse_text nlp txt =
     (let lines = map strip (filter (\<lambda>line. strip line \<noteq> []) (split_char newline txt))
      in analyze_relationships nlp (parse_lines lines empty_chain))"

section \<open>Segmentation as the specification words it\<close>

text \<open>The lines of the input, each trimmed, relieved of a leading ordinal marker and
  trimmed again; the lines that are empty after that are dropped.\<close>

definition surviving_lines :: "string \<Rightarrow> string list" where
  "surviving_lines txt =
     filter (\<lambda>s. s \<noteq> [])
       (map (\<lambda>line. strip (strip_ordinal (strip line))) (split_char newline txt))"

section \<open>More of Python\<close>

text \<open>\<open>sep.join(xs)\<close>\<close>

fun join :: "string \<Rightarrow> string list \<Rightarrow> string" where
  "join sep [] = []"
| "join sep [x] = x"
| "join sep (x # y # ys) = x @ sep @ join sep (y # ys)"

text \<open>\<open>str(n)\<close> for the integers that the descriptions interpolate.\<close>

fun show_nat :: "nat \<Rightarrow> string" where
  "show_nat n =
     (if n < 10 then [''0123456789'' ! n]
      else show_nat (n div 10) @ [''0123456789'' ! (n mod 10)])"

definition show_int :: "int \<Rightarrow> string" where
  "show_int i = (if i < 0 then CHR ''-'' # show_nat (nat (- i)) else show_nat (nat i))"

text \<open>The exceptions that the analysis can raise.\<close>

datatype error = StopIteration | IndexError

text \<open>Sequencing of computations that may raise.\<close>

definition bind :: "error + 'a \<Rightarrow> ('a \<Rightarrow> error + 'b) \<Rightarrow> error + 'b" where
  "bind m f = (case m of Inl e \<Rightarrow> Inl e | Inr x \<Rightarrow> f x)"

text \<open>\<open>xs[i]\<close>: a negative index counts from the end; out of range raises.\<close>

definition py_index :: "'a list \<Rightarrow> int \<Rightarrow> error + 'a" where
  "py_index xs i =
     (if 0 \<le> i \<and> i < int (length xs) then Inr (xs ! nat i)
      else if i < 0 \<and> - int (length xs) \<le> i then Inr (xs ! nat (int (length xs) + i))
      else Inl IndexError)"

text \<open>\<open>next(s for s in steps if s.id == i)\<close>\<close>

definition next_step :: "ReasoningStep list \<Rightarrow> int \<Rightarrow> error + ReasoningStep" where
  "next_step ss i =
     (case find (\<lambda>s. step_id s = i) ss of
        None \<Rightarrow> Inl StopIteration
      | Some s \<Rightarrow> Inr s)"

section \<open>Issues\<close>

text \<open>An issue is a Python dictionary: the keys in the order of the source, each with its
  value. A key that the source does not write is absent.\<close>

type_synonym issue = "(string \<times> pyval) list"

section \<open>The analyzer (analyzer.py): contradictions\<close>

definition contradiction_issue :: "Relationship \<Rightarrow> ReasoningStep \<Rightarrow> ReasoningStep \<Rightarrow> issue" where
  "contradiction_issue rel source target =
     [(''type'', Str ''contradiction''),
      (''description'', Str (''Contradiction between steps '' @ show_int (source_id rel) @
          '' and '' @ show_int (target_id rel))),
      (''details'', Dict [(''statement_1'', step_text source),
                          (''statement_2'', step_text target)]),
      (''step_ids'', Ids [source_id rel, target_id rel]),
      (''severity'', Str ''high'')]"

text \<open>The loop of \<open>_find_contradictions\<close> over the relationships.\<close>

fun contradictions_loop ::
  "ReasoningChain \<Rightarrow> Relationship list \<Rightarrow> issue list \<Rightarrow> error + issue list" where
  "contradictions_loop chain [] issues = Inr issues"
| "contradictions_loop chain (rel # rels) issues =
     (if rel_type rel = CONTRADICTS then
        bind (next_step (steps chain) (source_id rel)) (\<lambda>source.
        bind (next_step (steps chain) (target_id rel)) (\<lambda>target.
          contradictions_loop chain rels (issues @ [contradiction_issue rel source target])))
      else contradictions_loop chain rels issues)"

definition find_contradictions :: "ReasoningChain \<Rightarrow> error + issue list" where
  "find_contradictions chain = contradictions_loop chain (relationships chain) []"

section \<open>The analyzer: unsupported claims\<close>

definition casual_terms :: "string list" where
  "casual_terms =
     [''eat'', ''dinner'', ''lunch'', ''breakfast'', ''snack'', ''drink'',
      ''sleep'', ''rest'', ''walk'', ''watch'', ''read'', ''listen'', ''i feel'',
      ''i think'', ''i believe'', ''i want'', ''i need'', ''i would like'',
      ''let's'', ''maybe'', ''perhaps'', ''i'm thinking'', ''i guess'']"

definition academic_terms :: "string list" where
  "academic_terms =
     [''study'', ''exam'', ''test'', ''homework'', ''assignment'', ''class'',
      ''course'', ''learn'', ''review'', ''practice'', ''problem'', ''solve'',
      ''task'', ''project'', ''due'', ''deadline'', ''plan'', ''schedule'',
      ''research'', ''paper'', ''thesis'', ''dissertation'']"

definition logical_indicators :: "string list" where
  "logical_indicators =
     [''therefore'', ''thus'', ''hence'', ''consequently'', ''as a result'',
      ''because'', ''since'', ''given that'', ''this implies'', ''it follows that'']"

definition plan_terms :: "string list" where
  "plan_terms = [''i'll'', ''i will'', ''plan to'', ''going to'']"

definition common_knowledge_phrases :: "string list" where
  "common_knowledge_phrases =
     [''the sky is blue'', ''water is wet'', ''the earth is round'',
      ''humans need oxygen'', ''the sun rises in the east'', ''2+2=4'',
      ''paris is the capital of france'',
      ''water freezes at 0'' @ [CHR 0xC2, CHR 0xB0] @ ''c'',
      ''the sun is a star'', ''humans are mortal'']"

definition is_common_knowledge :: "string \<Rightarrow> bool" where
  "is_common_knowledge txt =
     (let text_lower = strip (strip_chars ''.'' (lower txt))
      in any_in common_knowledge_phrases text_lower)"

definition support_issue :: "ReasoningStep \<Rightarrow> issue" where
  "support_issue step =
     [(''type'', Str ''consider_adding_support''),
      (''description'', Str (''This conclusion might benefit from more support: ''
          @ [CHR 0x27] @ step_text step @ [CHR 0x27])),
      (''suggestions'', Strs
         [''What evidence or reasoning leads you to this conclusion?'',
          ''Are there any assumptions that should be made explicit?'',
          ''Could you add a step explaining why this follows from previous statements?'']),
      (''severity'', Str ''low'')]"

text \<open>The loop over the steps that looks for conclusions without support.\<close>

fun support_loop :: "ReasoningChain \<Rightarrow> ReasoningStep list \<Rightarrow> issue list \<Rightarrow> issue list" where
  "support_loop chain [] issues = issues"
| "support_loop chain (step # rest) issues =
     (if step_type step = CONCLUSION \<and> \<not> is_common_knowledge (step_text step) then
        (let supporting_relationships =
               filter (\<lambda>r. target_id r = step_id step \<and> rel_type r = SUPPORTS)
                 (relationships chain);
             is_logical_step = any_in logical_indicators (lower (step_text step))
         in if supporting_relationships = [] \<and> \<not> is_logical_step
            then support_loop chain rest (issues @ [support_issue step])
            else support_loop chain rest issues)
      else support_loop chain rest issues)"

definition planning_issue :: issue where
  "planning_issue =
     [(''type'', Str ''planning_analysis''),
      (''description'', Str ''This appears to be a planning or decision-making process''),
      (''suggestions'', Strs
         [''Have you considered potential obstacles to this plan?'',
          ''What alternatives did you consider before reaching this decision?'',
          ''Are there any dependencies between your tasks that should be addressed?'']),
      (''severity'', Str ''info'')]"

definition assumption_indicators :: "(string \<times> rat) list" where
  "assumption_indicators =
     [(''must'', 9/10), (''should'', 7/10), (''have to'', 6/10), (''need to'', 5/10),
      (''ought to'', 8/10), (''always'', 9/10), (''never'', 9/10)]"

definition softening_phrases :: "string list" where
  "softening_phrases =
     [''i should'', ''we should'', ''you should'', ''one should'',
      ''i must'', ''we must'', ''you must'', ''one must'',
      ''i have to'', ''we have to'', ''you have to'']"

definition conditional_markers :: "string list" where
  "conditional_markers = [''if '', ''when '', ''unless '']"

definition assumption_issue :: "ReasoningStep \<Rightarrow> rat \<Rightarrow> issue" where
  "assumption_issue step confidence =
     [(''type'', Str ''potential_assumption''),
      (''description'', Str (''This statement might contain an assumption: ''
          @ [CHR 0x27] @ step_text step @ [CHR 0x27])),
      (''suggestions'', Strs
         [''What makes you think this is necessary or true?'',
          ''Are there situations where this might not apply?'',
          ''Could you explain the reasoning behind this statement?'']),
      (''severity'', Str ''low''),
      (''confidence'', Num confidence)]"

text \<open>The inner loop over the assumption indicators: \<open>continue\<close> goes on with the next
  indicator, \<open>break\<close> leaves the loop.\<close>

fun indicator_loop ::
  "ReasoningStep \<Rightarrow> string \<Rightarrow> (string \<times> rat) list \<Rightarrow> issue list \<Rightarrow> issue list" where
  "indicator_loop step text_lower [] issues = issues"
| "indicator_loop step text_lower ((indicator, confidence) # rest) issues =
     (if py_in indicator text_lower then
        (if any_in softening_phrases text_lower then indicator_loop step text_lower rest issues
         else if any_in conditional_markers text_lower
           then indicator_loop step text_lower rest issues
         else issues @ [assumption_issue step confidence])
      else indicator_loop step text_lower rest issues)"

text \<open>The outer loop over the steps.\<close>

fun assumption_loop :: "ReasoningStep list \<Rightarrow> issue list \<Rightarrow> issue list" where
  "assumption_loop [] issues = issues"
| "assumption_loop (step # rest) issues =
     assumption_loop rest
       (indicator_loop step (lower (step_text step)) assumption_indicators issues)"

definition find_unsupported_claims :: "ReasoningChain \<Rightarrow> issue list" where
  "find_unsupported_claims chain =
     (let all_text = join '' '' (map (\<lambda>step. lower (step_text step)) (steps chain));
          conclusion_steps = filter (\<lambda>s. step_type s = CONCLUSION) (steps chain);
          is_plan = list_ex (\<lambda>s. any_in plan_terms (lower (step_text s))) conclusion_steps;
          is_casual = any_in casual_terms all_text;
          is_academic = any_in academic_terms all_text;
          issues1 = (if \<not> (is_casual \<and> \<not> is_academic) \<and> \<not> is_plan
                     then support_loop chain (steps chain) [] else []);
          issues2 = (if is_plan \<and> length (steps chain) > 1
                     then issues1 @ [planning_issue] else issues1)
      in assumption_loop (steps chain) issues2)"

section \<open>The analyzer: hasty generalizations\<close>

definition generalization_indicators :: "(string \<times> rat) list" where
  "generalization_indicators =
     [(''all '', 9/10), (''every '', 9/10), (''always '', 8/10), (''never '', 8/10),
      (''no one'', 9/10), (''everyone'', 9/10), (''nobody'', 9/10),
      (''everybody'', 9/10), (''everything'', 7/10), (''nothing'', 7/10),
      (''always '', 8/10), (''never '', 8/10)]"

definition common_sayings :: "string list" where
  "common_sayings =
     [''all of the above'', ''all right'', ''all the time'',
      ''all in all'', ''every now and then'', ''every time'']"

definition generalization_issue :: "ReasoningStep \<Rightarrow> rat \<Rightarrow> issue" where
  "generalization_issue step confidence =
     [(''type'', Str ''hasty_generalization''),
      (''description'', Str (''Potential hasty generalization: ''
          @ [CHR 0x27] @ step_text step @ [CHR 0x27])),
      (''step_ids'', Ids [step_id step]),
      (''severity'', Str ''medium''),
      (''confidence'', Num confidence),
      (''suggestions'', Strs
         [''Could you provide evidence or examples to support this generalization?'',
          ''Consider using qualifiers like 'some', 'many', or 'often' if appropriate''])]"

text \<open>The inner loop over the generalization indicators (it has no \<open>break\<close>).\<close>

fun generalization_loop ::
  "ReasoningChain \<Rightarrow> ReasoningStep \<Rightarrow> string \<Rightarrow> (string \<times> rat) list \<Rightarrow> issue list \<Rightarrow>
   issue list" where
  "generalization_loop chain step text_lower [] issues = issues"
| "generalization_loop chain step text_lower ((indicator, confidence) # rest) issues =
     (if py_in indicator text_lower then
        (let is_logical =
               (any_in [''all '', ''every '', ''no '', ''some ''] text_lower \<and>
                any_in ['' are '', '' is '', '' have '', '' has ''] text_lower);
             supporting_relationships =
               filter (\<lambda>r. target_id r = step_id step \<and> rel_type r = SUPPORTS)
                 (relationships chain)
         in if supporting_relationships = [] \<and> \<not> is_logical
            then generalization_loop chain step text_lower rest
                   (issues @ [generalization_issue step confidence])
            else generalization_loop chain step text_lower rest issues)
      else generalization_loop chain step text_lower rest issues)"

fun hasty_loop :: "ReasoningChain \<Rightarrow> ReasoningStep list \<Rightarrow> issue list \<Rightarrow> issue list" where
  "hasty_loop chain [] issues = issues"
| "hasty_loop chain (step # rest) issues =
     (let text_lower = lower (step_text step)
      in if any_in common_sayings text_lower then hasty_loop chain rest issues
         else hasty_loop chain rest
                (generalization_loop chain step text_lower generalization_indicators issues))"

definition find_hasty_generalizations :: "ReasoningChain \<Rightarrow> issue list" where
  "find_hasty_generalizations chain = hasty_loop chain (steps chain) []"

section \<open>The analyzer: circular reasoning\<close>

text \<open>The first occurrence of a separator: the text before it and the text after it.\<close>

fun find_sep :: "string \<Rightarrow> string \<Rightarrow> (string \<times> string) option" where
  "find_sep sep [] = (if sep = [] then Some ([], []) else None)"
| "find_sep sep (c # cs) =
     (if prefix sep (c # cs) then Some ([], drop (length sep) (c # cs))
      else map_option (\<lambda>(a, b). (c # a, b)) (find_sep sep cs))"

text \<open>\<open>s.split(sep, 1)\<close> for a non-empty separator: a list of one or two parts, modelled as
  the first part and the optional second one.\<close>

definition split_once :: "string \<Rightarrow> string \<Rightarrow> string \<times> string option" where
  "split_once sep s = (case find_sep sep s of None \<Rightarrow> (s, None) | Some (a, b) \<Rightarrow> (a, Some b))"

text \<open>\<open>parts[0]\<close> and \<open>parts[1]\<close>\<close>

definition part0 :: "string \<times> string option \<Rightarrow> string" where
  "part0 parts = fst parts"

definition part1 :: "string \<times> string option \<Rightarrow> error + string" where
  "part1 parts = (case snd parts of None \<Rightarrow> Inl IndexError | Some b \<Rightarrow> Inr b)"

text \<open>\<open>s.replace(old, "")\<close> for a non-empty \<open>old\<close>; the first argument counts the characters
  of a found occurrence that remain to be skipped.\<close>

fun remove_all_from :: "nat \<Rightarrow> string \<Rightarrow> string \<Rightarrow> string" where
  "remove_all_from k old [] = []"
| "remove_all_from (Suc k) old (c # cs) = remove_all_from k old cs"
| "remove_all_from 0 old (c # cs) =
     (if prefix old (c # cs) then remove_all_from (length old - 1) old cs
      else c # remove_all_from 0 old cs)"

definition remove_all :: "string \<Rightarrow> string \<Rightarrow> string" where
  "remove_all old s = remove_all_from 0 old s"

text \<open>The lemmas of the tokens of a text that are neither stop words nor punctuation.\<close>

definition content_lemmas :: "nlp \<Rightarrow> string \<Rightarrow> string list" where
  "content_lemmas nlp txt =
     map tok_lemma (filter (\<lambda>t. \<not> is_stop t \<and> \<not> is_punct t) (nlp txt))"

text \<open>The nested function \<open>is_circular\<close>, one definition for each of its blocks. A block
  gives \<open>True\<close> where the source returns \<open>True\<close> and \<open>False\<close> where it goes on.\<close>

definition circular_swapped :: "string \<Rightarrow> string \<Rightarrow> error + bool" where
  "circular_swapped text1 text2 =
     (if py_in '' because '' text1 \<and> py_in '' because '' text2 then
        (let parts1 = split_once '' because '' text1;
             parts2 = split_once '' because '' text2
         in bind (part1 parts2) (\<lambda>p21.
            bind (if py_in (strip (part0 parts1)) p21
                  then bind (part1 parts1) (\<lambda>p11. Inr (py_in (strip (part0 parts2)) p11))
                  else Inr False) (\<lambda>swapped.
            if swapped then Inr True
            else if py_in '' is '' (part0 parts1) \<and> py_in '' is '' (part0 parts2) then
              (let subj1 = strip (part0 (split_once '' is '' (part0 parts1)))
               in bind (part1 (split_once '' is '' (part0 parts1))) (\<lambda>c1.
                  let comp1 = strip c1;
                      subj2 = strip (part0 (split_once '' is '' (part0 parts2)))
                  in bind (part1 (split_once '' is '' (part0 parts2))) (\<lambda>c2.
                     let comp2 = strip c2
                     in if comp1 = comp2 then
                          (if py_in subj1 p21 then Inr True
                           else bind (part1 parts1) (\<lambda>p11. Inr (py_in subj2 p11)))
                        else Inr False)))
            else Inr False)))
      else Inr False)"

definition circular_says_so :: "string \<Rightarrow> string \<Rightarrow> bool" where
  "circular_says_so text1 text2 =
     (if py_in '' is true because '' text1 \<and> py_in ''says so'' text1 then
        (let subject = strip (part0 (split_once '' is true'' text1))
         in py_in (subject @ '' says so'') text1 \<and>
            (py_in ''because it's true'' (lower text2) \<or>
             py_in ''because it is true'' (lower text2)))
      else False)"

definition pronouns :: "string list" where
  "pronouns = [''it'', ''they'', ''he'', ''she'', ''this'', ''that'']"

text \<open>The body of the \<open>try\<close> statement.\<close>

definition circular_subjects_try :: "string \<Rightarrow> string \<Rightarrow> error + bool" where
  "circular_subjects_try text1 text2 =
     bind (if py_in '' is true because '' text1 \<and> py_in ''says so'' text1
           then bind (part1 (split_once '' because '' text1)) (\<lambda>r.
                  Inr (strip (part0 (split_once '' is true'' text1)),
                       strip (remove_all ''says so'' r)))
           else Inr ('''', '''')) (\<lambda>(subject1, reason1).
     bind (if py_in '' says so because '' text2 \<and> py_in '' is true'' text2
           then bind (part1 (split_once '' because '' text2)) (\<lambda>r.
                  Inr (strip (part0 (split_once '' says so'' text2)),
                       strip (remove_all ''is true'' r)))
           else Inr ('''', '''')) (\<lambda>(subject2, reason2).
     if subject1 \<noteq> [] \<and> subject2 \<noteq> [] \<and> reason1 \<noteq> [] \<and> reason2 \<noteq> [] \<and>
        ((py_in (lower subject1) (lower reason2) \<or> py_in (lower reason2) (lower subject1)) \<and>
         (py_in (lower subject2) (lower reason1) \<or> py_in (lower reason1) (lower subject2)))
     then Inr True
     else if (lower subject1 \<in> set pronouns \<and> subject2 \<noteq> []) \<or>
             (lower subject2 \<in> set pronouns \<and> subject1 \<noteq> [])
     then Inr True
     else Inr False))"

text \<open>The \<open>try\<close> statement with its handler, which passes on an \<open>IndexError\<close>.\<close>

definition circular_subjects :: "string \<Rightarrow> string \<Rightarrow> error + bool" where
  "circular_subjects text1 text2 =
     (if (py_in '' is true because '' text1 \<and> py_in ''says so'' text1) \<or>
         (py_in '' is true because '' text2 \<and> py_in ''says so'' text2)
      then (case circular_subjects_try text1 text2 of
              Inl IndexError \<Rightarrow> Inr False
            | Inl e \<Rightarrow> Inl e
            | Inr b \<Rightarrow> Inr b)
      else Inr False)"

definition circular_reworded :: "nlp \<Rightarrow> string \<Rightarrow> string \<Rightarrow> error + bool" where
  "circular_reworded nlp text1 text2 =
     (if py_in '' because '' text1 \<and> py_in '' because '' text2 then
        (let parts1 = split_once '' because '' text1;
             parts2 = split_once '' because '' text2
         in bind (part1 parts2) (\<lambda>p21.
            bind (if py_in (strip (part0 parts1)) p21
                  then bind (part1 parts1) (\<lambda>p11.
                         Inr (py_in (strip (part0 parts2)) p11 \<and>
                              length (split_ws (part0 parts1)) > 2 \<and>
                              length (split_ws (part0 parts2)) > 2))
                  else Inr False) (\<lambda>swapped.
            if swapped then Inr True
            else
              (let lemmas1 = set (content_lemmas nlp (part0 parts1));
                   lemmas2 = set (content_lemmas nlp p21)
               in Inr (lemmas1 \<noteq> {} \<and> lemmas2 \<noteq> {} \<and>
                       (of_nat (card (lemmas1 \<inter> lemmas2)) :: rat) /
                         of_nat (card (lemmas1 \<union> lemmas2)) > 1/2)))))
      else Inr False)"

definition is_circular :: "nlp \<Rightarrow> string \<Rightarrow> string \<Rightarrow> error + bool" where
  "is_circular nlp text1 text2 =
     (if py_in '' is true because '' text1 \<and> py_in '' is true'' text2 then Inr True
      else bind (circular_swapped text1 text2) (\<lambda>swapped.
        if swapped then Inr True
        else if circular_says_so text1 text2 then Inr True
        else bind (circular_subjects text1 text2) (\<lambda>related.
          if related then Inr True
          else circular_reworded nlp text1 text2)))"

definition circular_issue :: "string \<Rightarrow> int list \<Rightarrow> string list \<Rightarrow> issue" where
  "circular_issue description ids suggestions =
     [(''type'', Str ''circular_reasoning''),
      (''description'', Str description),
      (''step_ids'', Ids ids),
      (''severity'', Str ''high''),
      (''suggestions'', Strs suggestions)]"

text \<open>The first loop, over \<open>enumerate(chain.steps)\<close>: \<open>i\<close> is the index of \<open>step\<close>, \<open>seen\<close>
  the dictionary of the normalized texts met so far.\<close>

fun repeats_loop ::
  "nlp \<Rightarrow> ReasoningStep list \<Rightarrow> nat \<Rightarrow> ReasoningStep list \<Rightarrow> (string \<rightharpoonup> int) \<Rightarrow> issue list \<Rightarrow>
   error + issue list" where
  "repeats_loop nlp all_steps i [] seen issues = Inr issues"
| "repeats_loop nlp all_steps i (step # rest) seen issues =
     bind (if int i < int (length all_steps) - 1 \<and> i = 0 then
             bind (py_index all_steps (int i + 1)) (\<lambda>next_step.
               let next_text = lower (step_text next_step)
               in if py_in ''bible'' (lower (step_text step)) \<and>
                     py_in ''is true because it says so'' (lower (step_text step)) \<and>
                     py_in ''says so because it's true'' next_text
                  then Inr (issues @
                    [circular_issue
                       (''Steps '' @ show_int (int i + 1) @ '' and '' @ show_int (int i + 2) @
                        '' form a circular argument'')
                       [int i + 1, int i + 2]
                       [''This is a classic example of circular reasoning - the conclusion is used as its own evidence'',
                        ''Provide independent evidence to support the claim'']])
                  else Inr issues)
           else Inr issues) (\<lambda>issues1.
       let normalized = join '' '' (content_lemmas nlp (lower (step_text step)))
       in (case seen normalized of
             Some earlier \<Rightarrow>
               if length (split_ws normalized) > 3 then
                 repeats_loop nlp all_steps (Suc i) rest seen (issues1 @
                   [circular_issue
                      (''Step '' @ show_int (int i + 1) @ '' repeats the same point as step '' @
                       show_int earlier)
                      [earlier, int i + 1]
                      [''This appears to be circular reasoning - the same point is being made multiple times'',
                       ''Provide new evidence or reasoning to support your argument'']])
               else repeats_loop nlp all_steps (Suc i) rest (seen(normalized \<mapsto> int i + 1)) issues1
           | None \<Rightarrow>
               repeats_loop nlp all_steps (Suc i) rest (seen(normalized \<mapsto> int i + 1)) issues1))"

text \<open>The second loop, over \<open>range(len(chain.steps) - 1)\<close>.\<close>

fun adjacent_loop ::
  "nlp \<Rightarrow> ReasoningStep list \<Rightarrow> nat list \<Rightarrow> issue list \<Rightarrow> error + issue list" where
  "adjacent_loop nlp all_steps [] issues = Inr issues"
| "adjacent_loop nlp all_steps (i # is) issues =
     bind (py_index all_steps (int i)) (\<lambda>current.
     bind (py_index all_steps (int i + 1)) (\<lambda>next_step.
       let current_text = lower (step_text current);
           next_text = lower (step_text next_step)
       in bind (is_circular nlp current_text next_text) (\<lambda>forwards.
          bind (if forwards then Inr True else is_circular nlp next_text current_text)
            (\<lambda>circular.
          let issues1 =
                (if circular then issues @
                   [circular_issue
                      (''Potential circular reasoning between steps '' @ show_int (int i + 1) @
                       '' and '' @ show_int (int i + 2))
                      [int i + 1, int i + 2]
                      [''This appears to be circular reasoning - the conclusion is used as its own evidence'',
                       ''Provide independent evidence or reasoning to support your claim'']]
                 else issues);
              current_lemmas = set (content_lemmas nlp current_text);
              next_lemmas = set (content_lemmas nlp next_text);
              overlap = current_lemmas \<inter> next_lemmas;
              issues2 =
                (if current_lemmas \<noteq> {} \<and> next_lemmas \<noteq> {} \<and> card overlap \<ge> 3 \<and>
                    (of_nat (card overlap) :: rat) / of_nat (card current_lemmas) > 1/2
                 then issues1 @
                   [circular_issue
                      (''Potential circular reasoning between steps '' @ show_int (int i + 1) @
                       '' and '' @ show_int (int i + 2))
                      [int i + 1, int i + 2]
                      [''Ensure each step introduces new information or evidence'',
                       ''Check if these steps are just restating the same point'']]
                 else issues1)
          in adjacent_loop nlp all_steps is issues2))))"

definition find_circular_reasoning :: "nlp \<Rightarrow> ReasoningChain \<Rightarrow> error + issue list" where
  "find_circular_reasoning nlp chain =
     bind (repeats_loop nlp (steps chain) 0 (steps chain) Map.empty []) (\<lambda>issues.
       if length (steps chain) \<ge> 2
       then adjacent_loop nlp (steps chain) [0..<length (steps chain) - 1] issues
       else Inr issues)"

section \<open>The analyzer: emotional reasoning\<close>

definition emotional_words :: "string list" where
  "emotional_words =
     [''happy'', ''sad'', ''angry'', ''afraid'', ''scared'', ''worried'', ''anxious'',
      ''excited'', ''nervous'', ''frustrated'', ''disappointed'', ''proud'',
      ''ashamed'', ''guilty'', ''jealous'', ''lonely'', ''hopeful'', ''hopeless'',
      ''hate'', ''love'', ''terrified'', ''furious'', ''ecstatic'', ''miserable'',
      ''awful'', ''wonderful'', ''terrible'', ''horrible'', ''amazing'', ''perfect'',
      ''dreadful'', ''fantastic'', ''devastated'', ''heartbroken'', ''thrilled'',
      ''i feel'', ''i'm afraid'', ''i'm worried'', ''i'm scared'', ''i'm excited'',
      ''i'm happy'', ''i'm sad'', ''i think'', ''i believe'', ''i know'', ''i hope'',
      ''i wish'', ''i want'', ''i need'', ''i can't stand'', ''i can't handle'',
      ''i'm certain'', ''i'm sure'', ''i'm convinced'']"

definition strong_emotion_words :: "string list" where
  "strong_emotion_words =
     [''hate'', ''love'', ''terrified'', ''furious'', ''ecstatic'', ''miserable'',
      ''awful'', ''wonderful'', ''terrible'', ''horrible'', ''amazing'', ''perfect'',
      ''dreadful'', ''fantastic'', ''devastated'', ''heartbroken'', ''thrilled'',
      ''definitely'', ''certainly'', ''absolutely'']"

text \<open>
  The regular expressions of the source are sequences of literals, alternatives of
  literals, \<open>.*\<close> and \<open>\w+\<close>. \<open>re.search\<close> is used for its truth value only, which is
  whether some part of the text matches.
\<close>

datatype atom = Lit string | Alt "string list" | AnyStar | WordPlus

definition is_word_char :: "char \<Rightarrow> bool" where
  "is_word_char c =
     (let n = (of_char c :: nat)
      in (48 \<le> n \<and> n \<le> 57) \<or> (65 \<le> n \<and> n \<le> 90) \<or> n = 95 \<or> (97 \<le> n \<and> n \<le> 122) \<or>
         n = 170 \<or> n = 178 \<or> n = 179 \<or> n = 181 \<or> n = 185 \<or> n = 186 \<or>
         (188 \<le> n \<and> n \<le> 190) \<or> (192 \<le> n \<and> n \<le> 214) \<or> (216 \<le> n \<and> n \<le> 246) \<or>
         248 \<le> n)"

text \<open>Whether a match of the pattern starts at the beginning of the text.\<close>

function match_here :: "atom list \<Rightarrow> string \<Rightarrow> bool" where
  "match_here [] s = True"
| "match_here (Lit l # as) s = (prefix l s \<and> match_here as (drop (length l) s))"
| "match_here (Alt ls # as) s =
     list_ex (\<lambda>l. prefix l s \<and> match_here as (drop (length l) s)) ls"
| "match_here (AnyStar # as) s =
     (match_here as s \<or>
      (case s of [] \<Rightarrow> False | c # cs \<Rightarrow> c \<noteq> newline \<and> match_here (AnyStar # as) cs))"
| "match_here (WordPlus # as) s =
     (case s of
        [] \<Rightarrow> False
      | c # cs \<Rightarrow> is_word_char c \<and> (match_here as cs \<or> match_here (WordPlus # as) cs))"
  by pat_completeness auto
termination
  by (relation "measure (\<lambda>(p, s). length p + length s)") auto

text \<open>\<open>re.search(pattern, s)\<close> as a truth value.\<close>

fun re_search :: "atom list \<Rightarrow> string \<Rightarrow> bool" where
  "re_search p [] = match_here p []"
| "re_search p (c # cs) = (match_here p (c # cs) \<or> re_search p cs)"

definition emotional_reasoning_patterns :: "(atom list \<times> string) list" where
  "emotional_reasoning_patterns =
     [([Lit ''i '', Alt [''feel'', ''think'', ''believe''], Lit '' '', AnyStar, Lit '' so '',
        Alt [''i'', ''it'', ''that'', ''this'']],
       ''using feelings as direct evidence''),
      ([Lit ''i'm '', WordPlus, Lit '' because i '', Alt [''feel'', ''think'', ''believe'']],
       ''basing conclusions on feelings rather than facts''),
      ([Lit ''i '', Alt [''know'', ''think'', ''believe''], Lit '' '', AnyStar,
        Lit '' because i '', Alt [''feel'', ''think'', ''believe'']],
       ''using feelings as evidence for knowledge''),
      ([Lit ''i '', Alt [''feel'', ''think'', ''believe''], Lit '' '', AnyStar, Lit '' so '',
        Alt [''i'', ''you'', ''we'', ''they''], Lit '' '',
        Alt [''will'', ''must'', ''should'', ''have to'', ''need to'']],
       ''using feelings to predict outcomes''),
      ([Lit ''i '', Alt [''feel'', ''think'', ''believe''], Lit '' '', AnyStar, Lit '' '',
        Alt [''therefore'', ''thus'', ''hence'', ''so'', ''because''], Lit '' '',
        Alt [''i'', ''you'', ''we'', ''they'']],
       ''treating feelings as facts''),
      ([Alt [''i feel'', ''i'm feeling''], Lit '' '', AnyStar, Lit '' '',
        Alt [''so'', ''therefore'', ''thus'']],
       ''drawing conclusions from feelings''),
      ([Alt [''i feel'', ''i'm feeling''], Lit '' '', AnyStar, Lit '' because''],
       ''explaining with feelings rather than reasons''),
      ([Alt [''i feel'', ''i'm feeling''], Lit '' like '', AnyStar, Lit '' '',
        Alt [''is'', ''are'', ''was'', ''were'']],
       ''stating feelings as facts'')]"

text \<open>The generator over the SUPPORTS relationships in the second assignment of
  \<open>is_emotional_conclusion\<close>; \<open>any\<close> stops at the first true element.\<close>

fun supported_by_emotion ::
  "ReasoningStep list \<Rightarrow> ReasoningStep \<Rightarrow> Relationship list \<Rightarrow> error + bool" where
  "supported_by_emotion all_steps step [] = Inr False"
| "supported_by_emotion all_steps step (r # rs) =
     (if rel_type r = SUPPORTS then
        (if target_id r = step_id step then
           bind (py_index all_steps (source_id r - 1)) (\<lambda>source.
             if any_in emotional_words (lower (step_text source)) then Inr True
             else supported_by_emotion all_steps step rs)
         else supported_by_emotion all_steps step rs)
      else supported_by_emotion all_steps step rs)"

definition emotional_issue :: "string \<Rightarrow> nat \<Rightarrow> bool \<Rightarrow> issue" where
  "emotional_issue desc i medium =
     [(''type'', Str ''emotional_reasoning''),
      (''description'', Str desc),
      (''step_ids'', Ids [int i + 1]),
      (''severity'', Str (if medium then ''medium'' else ''low'')),
      (''suggestions'', Strs
         [''Support your argument with facts and evidence rather than feelings'',
          ''If this is an opinion, consider stating it as such'',
          ''Provide objective reasons to support your conclusion''])]"

text \<open>The body of the loop for one step: the issues to append (none where the source
  continues with the next step).\<close>

definition emotional_step ::
  "ReasoningChain \<Rightarrow> nat \<Rightarrow> ReasoningStep \<Rightarrow> error + issue list" where
  "emotional_step chain i step =
     (let text_lower = lower (step_text step)
      in if length (split_ws text_lower) < 4 \<and> \<not> any_in emotional_words text_lower then Inr []
         else
          (let emotion_words_found = filter (\<lambda>word. py_in word text_lower) emotional_words;
               emotion_found = (length emotion_words_found > 0);
               matched_patterns =
                 map snd (filter (\<lambda>(pattern, desc). re_search pattern text_lower)
                   emotional_reasoning_patterns)
           in bind (if i > 0 then
                      bind (py_index (steps chain) (int i - 1)) (\<lambda>prev.
                        let prev_text = lower (step_text prev);
                            prev_emotion = any_in emotional_words prev_text;
                            has_conclusion_word =
                              any_in [''therefore'', ''so'', ''thus'', ''hence'', ''because'',
                                      ''which means'', ''this means''] text_lower
                        in Inr (prev_emotion \<and> has_conclusion_word))
                    else Inr False) (\<lambda>follows_emotion.
              if emotion_found \<or> matched_patterns \<noteq> [] \<or> follows_emotion then
                (let strong_emotion =
                       (any_in strong_emotion_words text_lower \<or>
                        (py_in ''i feel'' text_lower \<and>
                         any_in [''therefore'', ''so'', ''thus'', ''hence''] text_lower));
                     is_premise =
                       list_ex (\<lambda>r. source_id r = step_id step \<and> rel_type r = SUPPORTS)
                         (relationships chain)
                 in bind (supported_by_emotion (steps chain) step (relationships chain))
                      (\<lambda>is_emotional_conclusion.
                    if strong_emotion \<or> is_emotional_conclusion \<or> is_premise \<or>
                       length matched_patterns > 0 then
                      (if \<not> is_premise \<and> \<not> is_emotional_conclusion \<and> \<not> strong_emotion \<and>
                          \<not> any_in [''because'', ''therefore'', ''so'', ''thus'', ''hence'',
                                    ''which means''] text_lower
                       then Inr []
                       else
                        (let desc =
                               (if is_emotional_conclusion then
                                  ''Step '' @ show_int (int i + 1) @
                                  '' draws a conclusion based on feelings rather than facts''
                                else if is_premise then
                                  ''Step '' @ show_int (int i + 1) @
                                  '' uses emotional reasoning to support a conclusion''
                                else
                                  ''Step '' @ show_int (int i + 1) @
                                  '' contains emotional language that might weaken the argument'')
                         in Inr [emotional_issue desc i (is_premise \<or> is_emotional_conclusion)]))
                    else Inr []))
              else Inr [])))"

text \<open>The loop over \<open>enumerate(chain.steps)\<close>.\<close>

fun emotional_loop ::
  "ReasoningChain \<Rightarrow> nat \<Rightarrow> ReasoningStep list \<Rightarrow> issue list \<Rightarrow> error + issue list" where
  "emotional_loop chain i [] issues = Inr issues"
| "emotional_loop chain i (step # rest) issues =
     bind (emotional_step chain i step) (\<lambda>new.
       emotional_loop chain (Suc i) rest (issues @ new))"

definition find_emotional_reasoning :: "ReasoningChain \<Rightarrow> error + issue list" where
  "find_emotional_reasoning chain = emotional_loop chain 0 (steps chain) []"

section \<open>The analyzer: all detectors\<close>

definition analyze_chain :: "nlp \<Rightarrow> ReasoningChain \<Rightarrow> error + issue list" where
  "analyze_chain nlp chain =
     (let issues1 = find_unsupported_claims chain
      in bind (find_circular_reasoning nlp chain) (\<lambda>issues2.
         let issues3 = find_hasty_generalizations chain
         in bind (find_contradictions chain) (\<lambda>issues4.
            bind (find_emotional_reasoning chain) (\<lambda>issues5.
              Inr (issues1 @ issues2 @ issues3 @ issues4 @ issues5)))))"

section \<open>The suggestion engine (ml\_suggestions.py)\<close>

text \<open>The sentiment scorer is an external library: the polarity of a text is a parameter
  of the model.\<close>

type_synonym sentiment = "string \<Rightarrow> rat"

definition short_step_issue :: "nat \<Rightarrow> issue" where
  "short_step_issue i =
     [(''type'', Str ''step_too_short''),
      (''description'', Str (''Step '' @ show_int (int i + 1) @ '' is quite brief'')),
      (''confidence'', Num (9/10)),
      (''severity'', Str ''low''),
      (''suggestions'', Strs
         [''Add more details or examples'',
          ''Explain the connection to your main point''])]"

definition emotional_indicators :: "(string \<times> string list) list" where
  "emotional_indicators =
     [(''positive'', [''excellent'', ''great'', ''amazing'', ''love'', ''perfect'', ''best'']),
      (''negative'', [''terrible'', ''awful'', ''worst'', ''hate'', ''never'', ''always''])]"

definition emotional_language_issue :: "nat \<Rightarrow> string \<Rightarrow> issue" where
  "emotional_language_issue i sentiment_type =
     [(''type'', Str (''emotional_language_'' @ sentiment_type)),
      (''description'', Str (''Step '' @ show_int (int i + 1) @ '' includes '' @ sentiment_type @
          '' language'')),
      (''confidence'', Num (8/10)),
      (''severity'', Str ''low''),
      (''suggestions'', Strs
         [''Consider if this strong language is necessary'',
          ''Balance emotional statements with evidence''])]"

text \<open>The loop over the two kinds of emotional indicators, left at the first that is found.\<close>

fun emotional_language_loop ::
  "nat \<Rightarrow> string \<Rightarrow> (string \<times> string list) list \<Rightarrow> issue list \<Rightarrow> issue list" where
  "emotional_language_loop i text_lower [] suggestions = suggestions"
| "emotional_language_loop i text_lower ((sentiment_type, indicators) # rest) suggestions =
     (if any_in indicators text_lower
      then suggestions @ [emotional_language_issue i sentiment_type]
      else emotional_language_loop i text_lower rest suggestions)"

definition subjective_phrases :: "string list" where
  "subjective_phrases =
     [''i think'', ''i believe'', ''in my opinion'', ''from my perspective'',
      ''it seems'', ''appears'', ''suggests'', ''indicates'']"

definition subjective_issue :: "nat \<Rightarrow> issue" where
  "subjective_issue i =
     [(''type'', Str ''subjective_language''),
      (''description'', Str (''Step '' @ show_int (int i + 1) @ '' includes subjective language'')),
      (''confidence'', Num (7/10)),
      (''severity'', Str ''info''),
      (''suggestions'', Strs
         [''Consider if this could be stated more objectively'',
          ''Support with evidence or data if possible''])]"

definition strong_sentiment_issue :: "nat \<Rightarrow> rat \<Rightarrow> issue" where
  "strong_sentiment_issue i polarity =
     (let sentiment_type = (if polarity > 0 then ''positive'' else ''negative'')
      in [(''type'', Str (''strong_'' @ sentiment_type @ ''_sentiment'')),
          (''description'', Str (''Step '' @ show_int (int i + 1) @ '' includes strong '' @
             sentiment_type @ '' language'')),
          (''confidence'', Num (min (9/10) (\<bar>polarity\<bar> * (3/2)))),
          (''severity'', Str ''low''),
          (''suggestions'', Strs
             [''Consider if this strong language is necessary'',
              ''Balance with factual statements''])])"

text \<open>The loop of \<open>get_suggestions\<close> over \<open>enumerate(chain.steps)\<close>.\<close>

fun suggestions_loop ::
  "sentiment \<Rightarrow> nat \<Rightarrow> ReasoningStep list \<Rightarrow> issue list \<Rightarrow> issue list" where
  "suggestions_loop polarity_of i [] suggestions = suggestions"
| "suggestions_loop polarity_of i (step # rest) suggestions =
     (let txt = strip (step_text step);
          words = split_ws txt
      in if words = [] then suggestions_loop polarity_of (Suc i) rest suggestions
         else if length words < 3
           then suggestions_loop polarity_of (Suc i) rest (suggestions @ [short_step_issue i])
         else
           (let suggestions1 =
                  emotional_language_loop i (lower txt) emotional_indicators suggestions;
                suggestions2 =
                  (if any_in subjective_phrases (lower txt)
                   then suggestions1 @ [subjective_issue i] else suggestions1);
                polarity = polarity_of (lower txt);
                suggestions3 =
                  (if \<bar>polarity\<bar> > 1/2
                   then suggestions2 @ [strong_sentiment_issue i polarity] else suggestions2)
            in suggestions_loop polarity_of (Suc i) rest suggestions3))"

definition transition_indicators :: "string list" where
  "transition_indicators =
     [''therefore'', ''thus'', ''hence'', ''consequently'',
      ''additionally'', ''furthermore'', ''moreover'',
      ''however'', ''on the other hand'', ''conversely'',
      ''for example'', ''for instance'', ''specifically'']"

text \<open>\<open>set(word for word in s.split() if len(word) > 3)\<close>\<close>

definition long_words :: "string \<Rightarrow> string set" where
  "long_words s = set (filter (\<lambda>word. length word > 3) (split_ws s))"

definition topic_overlap :: "string \<Rightarrow> string \<Rightarrow> rat" where
  "topic_overlap current_text next_text =
     (let current_words = long_words current_text;
          next_words = long_words next_text
      in of_nat (card (current_words \<inter> next_words)) /
         of_nat (max 1 (min (card current_words) (card next_words))))"

definition needs_transition :: "string \<Rightarrow> bool" where
  "needs_transition next_text = (\<not> any_in transition_indicators next_text)"

definition transition_issue :: "nat \<Rightarrow> rat \<Rightarrow> issue" where
  "transition_issue i overlap =
     [(''type'', Str ''smooth_transition_needed''),
      (''description'', Str (''The transition to step '' @ show_int (int i + 2) @
          '' could be smoother'')),
      (''confidence'', Num (8/10 - overlap * (3/2))),
      (''severity'', Str ''low''),
      (''suggestions'', Strs
         [''Add a transition to connect these ideas'',
          ''Explain how these points relate to each other''])]"

text \<open>The loop of \<open>_analyze_flow\<close> over \<open>range(len(chain.steps) - 1)\<close>.\<close>

fun flow_loop :: "ReasoningStep list \<Rightarrow> nat list \<Rightarrow> issue list \<Rightarrow> error + issue list" where
  "flow_loop all_steps [] flow_suggestions = Inr flow_suggestions"
| "flow_loop all_steps (i # is) flow_suggestions =
     bind (py_index all_steps (int i)) (\<lambda>current.
     bind (py_index all_steps (int i + 1)) (\<lambda>next_step.
       let current_text = lower (step_text current);
           next_text = lower (step_text next_step);
           overlap = topic_overlap current_text next_text
       in if needs_transition next_text \<and> overlap < 4/10
          then flow_loop all_steps is (flow_suggestions @ [transition_issue i overlap])
          else flow_loop all_steps is flow_suggestions))"

definition analyze_flow :: "ReasoningChain \<Rightarrow> error + issue list" where
  "analyze_flow chain =
     (if length (steps chain) < 2 then Inr []
      else flow_loop (steps chain) [0..<length (steps chain) - 1] [])"

definition get_suggestions :: "sentiment \<Rightarrow> ReasoningChain \<Rightarrow> error + issue list" where
  "get_suggestions polarity_of chain =
     (let suggestions = suggestions_loop polarity_of 0 (steps chain) []
      in if length (steps chain) > 1
         then bind (analyze_flow chain) (\<lambda>flow. Inr (suggestions @ flow))
         else Inr suggestions)"

section \<open>A small tokenizer\<close>

text \<open>Where a statement is run on a concrete input, the language capability is this
  tokenizer: the tokens are the words between whitespace, the lemma of a word drops a final
  \<open>s\<close>, and a few words are stop words.\<close>

definition sample_token :: "string \<Rightarrow> token" where
  "sample_token w =
     \<lparr>tok_text = w,
      tok_lemma = (if length w > 1 \<and> last w = CHR ''s'' then butlast w else w),
      is_stop = (w \<in> set [''the'', ''a'', ''is'', ''are'']),
      is_punct = False\<rparr>"

definition sample_nlp :: nlp where
  "sample_nlp s = map sample_token (split_ws s)"

text \<open>A tokenizer of the same kind whose stop words include the negation terms, as the stop
  list of the language pipeline that the parser loads does.\<close>

definition stopword_token :: "string \<Rightarrow> token" where
  "stopword_token w =
     \<lparr>tok_text = w,
      tok_lemma = (if length w > 1 \<and> last w = CHR ''s'' then butlast w else w),
      is_stop = (w \<in> set [''the'', ''a'', ''is'', ''are'', ''no'', ''not'', ''never'', ''none'',
                           ''nobody'', ''nothing'', ''nowhere'', ''neither'', ''nor'']),
      is_punct = False\<rparr>"

definition stopword_nlp :: nlp where
  "stopword_nlp s = map stopword_token (split_ws s)"

section \<open>The properties as the specification words them\<close>

text \<open>A phrase occurs in a text.\<close>

definition occurs_in :: "string \<Rightarrow> string \<Rightarrow> bool" where
  "occurs_in p s = (\<exists>a b. s = a @ p @ b)"

text \<open>The meaningful tokens of a step: the tokens of the lowercased text that are neither
  stop words nor punctuation, read in the given form (surface text or lemma).\<close>

definition meaningful_tokens :: "(token \<Rightarrow> string) \<Rightarrow> nlp \<Rightarrow> string \<Rightarrow> string set" where
  "meaningful_tokens form nlp txt =
     form ` {t \<in> set (nlp (lower txt)). \<not> is_stop t \<and> \<not> is_punct t}"

definition negation_vocabulary :: "string set" where
  "negation_vocabulary =
     {''no'', ''not'', ''never'', ''none'', ''nobody'', ''nothing'', ''nowhere'', ''neither'',
      ''nor''}"

text \<open>Exactly one of two token sets holds a negation term, and the two sets share at least
  two elements.\<close>

definition negated_overlap :: "string set \<Rightarrow> string set \<Rightarrow> bool" where
  "negated_overlap w1 w2 =
     (((w1 \<inter> negation_vocabulary \<noteq> {}) \<noteq> (w2 \<inter> negation_vocabulary \<noteq> {})) \<and>
      card (w1 \<inter> w2) \<ge> 2)"

text \<open>The chain holds a relationship from the step at position \<open>i\<close> to the step at
  position \<open>j\<close>.\<close>

definition pair_related :: "ReasoningChain \<Rightarrow> nat \<Rightarrow> nat \<Rightarrow> bool" where
  "pair_related chain i j =
     (\<exists>r \<in> set (relationships chain).
        source_id r = step_id (steps chain ! i) \<and> target_id r = step_id (steps chain ! j))"

text \<open>The invariant of a chain in the data model: the source and the target of every
  relationship resolve to a step of the chain.\<close>

definition relationships_resolve :: "ReasoningChain \<Rightarrow> bool" where
  "relationships_resolve chain =
     (\<forall>r \<in> set (relationships chain).
        get_step chain (source_id r) \<noteq> None \<and> get_step chain (target_id r) \<noteq> None)"

text \<open>A chain of the data model: the step ids are 1, ..., n in order, and the
  relationships resolve.\<close>

definition well_formed :: "ReasoningChain \<Rightarrow> bool" where
  "well_formed chain =
     (map step_id (steps chain) = map int [1..<Suc (length (steps chain))] \<and>
      relationships_resolve chain)"

text \<open>The value of a key of an issue.\<close>

definition field :: "issue \<Rightarrow> string \<Rightarrow> pyval option" where
  "field i key = map_of i key"

text \<open>The \<open>potential_assumption\<close> issues that the specification expects for one step.\<close>

definition expected_assumptions :: "ReasoningStep \<Rightarrow> issue list" where
  "expected_assumptions step =
     (let t = lower (step_text step)
      in if any_in softening_phrases t \<or> any_in conditional_markers t then []
         else (case find (\<lambda>(indicator, confidence). py_in indicator t) assumption_indicators of
                 None \<Rightarrow> []
               | Some (indicator, confidence) \<Rightarrow> [assumption_issue step confidence]))"

text \<open>The \<open>smooth_transition_needed\<close> suggestions that the specification expects for the
  steps at the positions \<open>i\<close> and \<open>i + 1\<close>.\<close>

definition expected_transitions :: "ReasoningStep list \<Rightarrow> nat \<Rightarrow> issue list" where
  "expected_transitions ss i =
     (let next_text = lower (step_text (ss ! Suc i));
          overlap = topic_overlap (lower (step_text (ss ! i))) next_text
      in if \<not> any_in transition_indicators next_text \<and> overlap < 4/10
         then [transition_issue i overlap] else [])"

text \<open>The \<open>contradiction\<close> issue that the specification expects for a relationship.\<close>

definition expected_contradiction :: "ReasoningChain \<Rightarrow> Relationship \<Rightarrow> issue" where
  "expected_contradiction chain r =
     contradiction_issue r (the (get_step chain (source_id r)))
       (the (get_step chain (target_id r)))"

text \<open>A computation returns, and every issue that it returns has a property.\<close>

definition returns_all :: "(issue \<Rightarrow> bool) \<Rightarrow> error + issue list \<Rightarrow> bool" where
  "returns_all P m = (case m of Inl e \<Rightarrow> False | Inr issues \<Rightarrow> list_all P issues)"

text \<open>The type tag of an issue.\<close>

definition has_type :: "string \<Rightarrow> issue \<Rightarrow> bool" where
  "has_type ty i = (field i ''type'' = Some (Str ty))"

section \<open>Properties of the parser\<close>

lemma steps_add_relationship [simp]: "steps (add_relationship chain a b ty) = steps chain"
  by (simp add: add_relationship_def)

lemma steps_relate_to_later [simp]: "steps (relate_to_later nlp s1 rest chain) = steps chain"
  by (induction rest arbitrary: chain) simp_all

lemma steps_relate_all [simp]: "steps (relate_all nlp ss chain) = steps chain"
  by (induction ss arbitrary: chain) simp_all

lemma steps_analyze_relationships [simp]:
  "steps (analyze_relationships nlp chain) = steps chain"
  by (simp add: analyze_relationships_def)

lemma strip_ordinal_Nil [simp]: "strip_ordinal [] = []"
  by (simp add: strip_ordinal_def)

lemma strip_Nil [simp]: "strip [] = []"
  by (simp add: strip_def)

lemma texts_parse_lines:
  "map step_text (steps (parse_lines ls chain)) =
     map step_text (steps chain) @
     filter (\<lambda>s. s \<noteq> []) (map (\<lambda>line. strip (strip_ordinal line)) ls)"
  by (induction ls arbitrary: chain) (simp_all add: Let_def add_step_def)

lemma ids_append_next:
  "map step_id ss = map int [1..<Suc (length ss)] \<Longrightarrow>
   map step_id (ss @ [\<lparr>step_id = int (length ss) + 1, step_text = t, step_type = ty,
       step_confidence = cf, metadata = md\<rparr>]) =
     map int [1..<Suc (length (ss @ [\<lparr>step_id = int (length ss) + 1, step_text = t,
       step_type = ty, step_confidence = cf, metadata = md\<rparr>]))]"
  by simp

lemma ids_add_step:
  "map step_id (steps chain) = map int [1..<Suc (length (steps chain))] \<Longrightarrow>
   map step_id (steps (add_step chain t ty)) =
     map int [1..<Suc (length (steps (add_step chain t ty)))]"
  unfolding add_step_def using ids_append_next by simp

lemma ids_parse_lines:
  "map step_id (steps chain) = map int [1..<Suc (length (steps chain))] \<Longrightarrow>
   map step_id (steps (parse_lines ls chain)) =
     map int [1..<Suc (length (steps (parse_lines ls chain)))]"
proof (induction ls arbitrary: chain)
  case Nil
  then show ?case by simp
next
  case (Cons line ls)
  show ?case
  proof (cases "strip (strip_ordinal line) = []")
    case True
    then show ?thesis using Cons.IH [OF Cons.prems] by simp
  next
    case False
    then show ?thesis
      using Cons.IH [OF ids_add_step [OF Cons.prems]] by (simp add: Let_def)
  qed
qed

lemma surviving_lines_filter:
  "filter (\<lambda>s. s \<noteq> [])
     (map (\<lambda>line. strip (strip_ordinal line)) (map strip (filter (\<lambda>line. strip line \<noteq> []) ls))) =
   filter (\<lambda>s. s \<noteq> []) (map (\<lambda>line. strip (strip_ordinal (strip line))) ls)"
  by (induction ls) simp_all

lemma texts_parse_text: "map step_text (steps (parse_text nlp inp)) = surviving_lines inp"
  unfolding parse_text_def surviving_lines_def Let_def
  by (simp only: steps_analyze_relationships texts_parse_lines surviving_lines_filter)
    (simp add: empty_chain_def)

lemma ids_parse_text:
  "map step_id (steps (parse_text nlp inp)) =
     map int [1..<Suc (length (steps (parse_text nlp inp)))]"
proof -
  have "map step_id (steps empty_chain) = map int [1..<Suc (length (steps empty_chain))]"
    by (simp add: empty_chain_def)
  from ids_parse_lines [OF this] show ?thesis
    by (simp add: parse_text_def)
qed

text \<open>
  C1. For every input text the steps of the parsed chain are, in input order, exactly the
  lines that remain non-empty after trimming and removing a leading ordinal marker, and the
  step ids are exactly 1, ..., n for those n lines.
\<close>

theorem parse_text_segmentation:
  "map step_text (steps (parse_text nlp inp)) = surviving_lines inp \<and>
   map step_id (steps (parse_text nlp inp)) = map int [1..<Suc (length (surviving_lines inp))]"
proof -
  have len: "length (steps (parse_text nlp inp)) = length (surviving_lines inp)"
    using texts_parse_text [of nlp inp] by (metis length_map)
  show ?thesis
    using ids_parse_text [of nlp inp] by (simp add: texts_parse_text len)
qed

section \<open>Phrases\<close>

lemma py_in_sublist: "py_in p s = sublist p s"
  by (induction s) (simp_all add: sublist_Cons_right)

lemma py_in_occurs: "py_in p s = occurs_in p s"
  by (simp add: py_in_sublist occurs_in_def sublist_def)

lemma any_in_occurs: "any_in ps s = (\<exists>p \<in> set ps. occurs_in p s)"
  by (simp add: any_in_def list_ex_iff py_in_occurs)

section \<open>The relationships of a parsed chain\<close>

lemma relationships_add_step [simp]: "relationships (add_step chain t ty) = relationships chain"
  by (simp add: add_step_def)

lemma relationships_parse_lines [simp]:
  "relationships (parse_lines ls chain) = relationships chain"
  by (induction ls arbitrary: chain) (simp_all add: Let_def)

lemma rels_relate_to_later:
  "relationships (relate_to_later nlp s1 rest chain) =
     relationships chain @
     map (\<lambda>s2. \<lparr>source_id = step_id s1, target_id = step_id s2, rel_type = CONTRADICTS,
                rel_confidence = 1\<rparr>)
       (filter (\<lambda>s2. are_contradictory nlp (step_text s1) (step_text s2)) rest)"
  by (induction rest arbitrary: chain) (simp_all add: add_relationship_def)

lemma pairs_Cons:
  "{f ((s # rest) ! i) ((s # rest) ! j) | i j.
      i < j \<and> j < Suc (length rest) \<and> P ((s # rest) ! i) ((s # rest) ! j)} =
   {f s s2 | s2. s2 \<in> set rest \<and> P s s2} \<union>
   {f (rest ! i) (rest ! j) | i j. i < j \<and> j < length rest \<and> P (rest ! i) (rest ! j)}"
  (is "?L = ?A \<union> ?B")
proof (rule set_eqI)
  fix x
  show "x \<in> ?L \<longleftrightarrow> x \<in> ?A \<union> ?B"
  proof
    assume "x \<in> ?L"
    then obtain i j where ij: "i < j" "j < Suc (length rest)"
      "P ((s # rest) ! i) ((s # rest) ! j)" "x = f ((s # rest) ! i) ((s # rest) ! j)"
      by blast
    from ij(1) obtain j' where j': "j = Suc j'" by (cases j) auto
    show "x \<in> ?A \<union> ?B"
    proof (cases i)
      case 0
      with ij j' have "x = f s (rest ! j')" "rest ! j' \<in> set rest" "P s (rest ! j')"
        by auto
      then show ?thesis by blast
    next
      case (Suc i')
      with ij j' have "x = f (rest ! i') (rest ! j')" "i' < j'" "j' < length rest"
        "P (rest ! i') (rest ! j')"
        by auto
      then show ?thesis by blast
    qed
  next
    assume "x \<in> ?A \<union> ?B"
    then show "x \<in> ?L"
    proof
      assume "x \<in> ?A"
      then obtain s2 where s2: "s2 \<in> set rest" "P s s2" "x = f s s2" by blast
      then obtain k where k: "k < length rest" "rest ! k = s2"
        by (auto simp: in_set_conv_nth)
      have "0 < Suc k \<and> Suc k < Suc (length rest) \<and>
            P ((s # rest) ! 0) ((s # rest) ! Suc k) \<and>
            x = f ((s # rest) ! 0) ((s # rest) ! Suc k)"
        using s2 k by simp
      then show ?thesis by blast
    next
      assume "x \<in> ?B"
      then obtain i j where ij: "i < j" "j < length rest" "P (rest ! i) (rest ! j)"
        "x = f (rest ! i) (rest ! j)"
        by blast
      have "Suc i < Suc j \<and> Suc j < Suc (length rest) \<and>
            P ((s # rest) ! Suc i) ((s # rest) ! Suc j) \<and>
            x = f ((s # rest) ! Suc i) ((s # rest) ! Suc j)"
        using ij by simp
      then show ?thesis by blast
    qed
  qed
qed

lemma set_rels_relate_all:
  "set (relationships (relate_all nlp ss chain)) =
     set (relationships chain) \<union>
     {\<lparr>source_id = step_id (ss ! i), target_id = step_id (ss ! j), rel_type = CONTRADICTS,
        rel_confidence = 1\<rparr> | i j.
        i < j \<and> j < length ss \<and> are_contradictory nlp (step_text (ss ! i)) (step_text (ss ! j))}"
proof (induction ss arbitrary: chain)
  case Nil
  then show ?case by simp
next
  case (Cons s rest)
  have later: "set (relationships (relate_to_later nlp s rest chain)) =
     set (relationships chain) \<union>
     {\<lparr>source_id = step_id s, target_id = step_id s2, rel_type = CONTRADICTS,
        rel_confidence = 1\<rparr> | s2.
        s2 \<in> set rest \<and> are_contradictory nlp (step_text s) (step_text s2)}"
    by (auto simp: rels_relate_to_later)
  show ?case
    unfolding relate_all.simps Cons.IH later
    using pairs_Cons [of "\<lambda>a b. \<lparr>source_id = step_id a, target_id = step_id b,
        rel_type = CONTRADICTS, rel_confidence = 1\<rparr>" s rest
        "\<lambda>a b. are_contradictory nlp (step_text a) (step_text b)"]
    by (simp add: Un_assoc)
qed

lemma set_rels_parse_text:
  "set (relationships (parse_text nlp inp)) =
     {\<lparr>source_id = step_id (steps (parse_text nlp inp) ! i),
        target_id = step_id (steps (parse_text nlp inp) ! j),
        rel_type = CONTRADICTS, rel_confidence = 1\<rparr> | i j.
        i < j \<and> j < length (steps (parse_text nlp inp)) \<and>
        are_contradictory nlp (step_text (steps (parse_text nlp inp) ! i))
          (step_text (steps (parse_text nlp inp) ! j))}"
proof -
  define c0 where "c0 = parse_lines
     (map strip (filter (\<lambda>line. strip line \<noteq> []) (split_char newline inp))) empty_chain"
  have p: "parse_text nlp inp = relate_all nlp (steps c0) c0"
    by (simp add: parse_text_def analyze_relationships_def c0_def Let_def)
  have r0: "relationships c0 = []"
    by (simp add: c0_def empty_chain_def)
  show ?thesis
    unfolding p by (simp add: set_rels_relate_all r0)
qed

lemma step_id_nth_parse_text:
  "k < length (steps (parse_text nlp inp)) \<Longrightarrow>
   step_id (steps (parse_text nlp inp) ! k) = int k + 1"
proof -
  assume k: "k < length (steps (parse_text nlp inp))"
  have "step_id (steps (parse_text nlp inp) ! k) =
        map step_id (steps (parse_text nlp inp)) ! k"
    using k by simp
  also have "\<dots> = map int [1..<Suc (length (steps (parse_text nlp inp)))] ! k"
    by (simp only: ids_parse_text [symmetric])
  also have "\<dots> = int k + 1"
    using k by (simp del: upt_Suc)
  finally show ?thesis .
qed

lemma are_contradictory_negated_overlap:
  "are_contradictory nlp t1 t2 =
     negated_overlap (meaningful_tokens tok_text nlp t1) (meaningful_tokens tok_text nlp t2)"
proof -
  have w: "\<And>t. content_words nlp t = meaningful_tokens tok_text nlp t"
    by (auto simp: content_words_def meaningful_tokens_def)
  have n: "\<And>w. list_ex (\<lambda>neg. neg \<in> w) negations = (w \<inter> negation_vocabulary \<noteq> {})"
    by (auto simp: list_ex_iff negations_def negation_vocabulary_def)
  show ?thesis
    by (auto simp: are_contradictory_def Let_def w n negated_overlap_def)
qed

lemma types_add_step:
  "\<forall>s \<in> set (steps chain). step_type s = determine_step_type (step_text s) \<Longrightarrow>
   \<forall>s \<in> set (steps (add_step chain t (determine_step_type t))).
      step_type s = determine_step_type (step_text s)"
  by (simp add: add_step_def)

lemma types_parse_lines:
  "\<forall>s \<in> set (steps chain). step_type s = determine_step_type (step_text s) \<Longrightarrow>
   \<forall>s \<in> set (steps (parse_lines ls chain)). step_type s = determine_step_type (step_text s)"
proof (induction ls arbitrary: chain)
  case Nil
  then show ?case by simp
next
  case (Cons line ls)
  show ?case
  proof (cases "strip (strip_ordinal line) = []")
    case True
    then show ?thesis using Cons.IH [OF Cons.prems] by simp
  next
    case False
    then show ?thesis
      using Cons.IH [OF types_add_step [OF Cons.prems]] by (simp add: Let_def)
  qed
qed

lemma types_parse_text:
  "s \<in> set (steps (parse_text nlp inp)) \<Longrightarrow> step_type s = determine_step_type (step_text s)"
proof -
  assume s: "s \<in> set (steps (parse_text nlp inp))"
  have "\<forall>s \<in> set (steps empty_chain). step_type s = determine_step_type (step_text s)"
    by (simp add: empty_chain_def)
  from types_parse_lines [OF this] s show ?thesis
    by (simp add: parse_text_def Let_def)
qed

text \<open>
  C2 (as amended). For every pair of steps i before j of a parsed chain, the chain holds a
  relationship from i to j if and only if exactly one of the two steps has a negation term
  among its meaningful tokens and the two sets of meaningful tokens share at least two
  elements, where the meaningful tokens are the surface texts (not the lemmas) of the tokens
  that are neither stop words nor punctuation. Every relationship of the chain is a
  CONTRADICTS relationship from an earlier step to a later one.
\<close>

theorem parse_text_contradicts:
  "(\<forall>i j. i < j \<and> j < length (steps (parse_text nlp inp)) \<longrightarrow>
      pair_related (parse_text nlp inp) i j =
        negated_overlap
          (meaningful_tokens tok_text nlp (step_text (steps (parse_text nlp inp) ! i)))
          (meaningful_tokens tok_text nlp (step_text (steps (parse_text nlp inp) ! j)))) \<and>
   (\<forall>r \<in> set (relationships (parse_text nlp inp)).
      rel_type r = CONTRADICTS \<and>
      (\<exists>i j. i < j \<and> j < length (steps (parse_text nlp inp)) \<and>
         source_id r = step_id (steps (parse_text nlp inp) ! i) \<and>
         target_id r = step_id (steps (parse_text nlp inp) ! j)))"
proof (intro conjI allI impI ballI)
  fix r
  assume "r \<in> set (relationships (parse_text nlp inp))"
  then obtain i j where ij: "i < j" "j < length (steps (parse_text nlp inp))"
    "r = \<lparr>source_id = step_id (steps (parse_text nlp inp) ! i),
          target_id = step_id (steps (parse_text nlp inp) ! j),
          rel_type = CONTRADICTS, rel_confidence = 1\<rparr>"
    unfolding set_rels_parse_text [of nlp inp] by blast
  from ij(3) show "rel_type r = CONTRADICTS" by simp
  from ij show "\<exists>i j. i < j \<and> j < length (steps (parse_text nlp inp)) \<and>
         source_id r = step_id (steps (parse_text nlp inp) ! i) \<and>
         target_id r = step_id (steps (parse_text nlp inp) ! j)"
    by auto
next
  fix i j
  assume ij: "i < j \<and> j < length (steps (parse_text nlp inp))"
  let ?c = "parse_text nlp inp"
  let ?P = "\<lambda>a b. are_contradictory nlp (step_text (steps ?c ! a)) (step_text (steps ?c ! b))"
  have "pair_related ?c i j = ?P i j"
  proof
    assume "pair_related ?c i j"
    then obtain r where r: "r \<in> set (relationships ?c)"
      "source_id r = step_id (steps ?c ! i)" "target_id r = step_id (steps ?c ! j)"
      by (auto simp: pair_related_def)
    from r(1) obtain a b where ab: "a < b" "b < length (steps ?c)" "?P a b"
      "r = \<lparr>source_id = step_id (steps ?c ! a), target_id = step_id (steps ?c ! b),
            rel_type = CONTRADICTS, rel_confidence = 1\<rparr>"
      unfolding set_rels_parse_text [of nlp inp] by blast
    have "step_id (steps ?c ! a) = step_id (steps ?c ! i)"
      "step_id (steps ?c ! b) = step_id (steps ?c ! j)"
      using r(2,3) ab(4) by simp_all
    then have "a = i" "b = j"
      using ab(1,2) ij by (simp_all add: step_id_nth_parse_text)
    with ab(3) show "?P i j" by simp
  next
    assume "?P i j"
    with ij have "\<lparr>source_id = step_id (steps ?c ! i), target_id = step_id (steps ?c ! j),
            rel_type = CONTRADICTS, rel_confidence = 1\<rparr> \<in> set (relationships ?c)"
      unfolding set_rels_parse_text [of nlp inp] by blast
    then show "pair_related ?c i j"
      unfolding pair_related_def by force
  qed
  then show "pair_related ?c i j =
        negated_overlap
          (meaningful_tokens tok_text nlp (step_text (steps ?c ! i)))
          (meaningful_tokens tok_text nlp (step_text (steps ?c ! j)))"
    by (simp add: are_contradictory_negated_overlap)
qed

theorem parse_text_contradicts_witness:
  "(0::nat) < 1 \<and>
   1 < length (steps (parse_text sample_nlp (''cat dog'' @ [newline] @ ''no cat dog''))) \<and>
   negated_overlap
     (meaningful_tokens tok_text sample_nlp
        (step_text (steps (parse_text sample_nlp (''cat dog'' @ [newline] @ ''no cat dog'')) ! 0)))
     (meaningful_tokens tok_text sample_nlp
        (step_text (steps (parse_text sample_nlp (''cat dog'' @ [newline] @ ''no cat dog'')) ! 1))) \<and>
   pair_related (parse_text sample_nlp (''cat dog'' @ [newline] @ ''no cat dog'')) 0 1 \<and>
   \<lparr>source_id = 1, target_id = 2, rel_type = CONTRADICTS, rel_confidence = 1\<rparr>
     \<in> set (relationships (parse_text sample_nlp (''cat dog'' @ [newline] @ ''no cat dog'')))"
proof -
  let ?c = "parse_text sample_nlp (''cat dog'' @ [newline] @ ''no cat dog'')"
  have len: "1 < length (steps ?c)"
    by code_simp
  have ov: "negated_overlap
     (meaningful_tokens tok_text sample_nlp (step_text (steps ?c ! 0)))
     (meaningful_tokens tok_text sample_nlp (step_text (steps ?c ! 1)))"
    by code_simp
  have mem: "\<lparr>source_id = 1, target_id = 2, rel_type = CONTRADICTS, rel_confidence = 1\<rparr>
     \<in> set (relationships ?c)"
    by code_simp
  from parse_text_contradicts [of sample_nlp "''cat dog'' @ [newline] @ ''no cat dog''"]
  have "(0::nat) < 1 \<and> 1 < length (steps ?c) \<longrightarrow>
      pair_related ?c 0 1 =
        negated_overlap
          (meaningful_tokens tok_text sample_nlp (step_text (steps ?c ! 0)))
          (meaningful_tokens tok_text sample_nlp (step_text (steps ?c ! 1)))"
    by blast
  with len ov mem show ?thesis by simp
qed

text \<open>
  C2 as stated reads the lemmas of the tokens. Take a tokenizer for which every negation
  term is a stop word. The token ``nothings'' is no stop word and its lemma is the negation
  term ``nothing''; so of the steps ``nothings cats dogs'' and ``cat dog'' only the first has
  a negation term among its lemmas, and the two share the lemmas ``cat'' and ``dog''. The
  parser, which compares the surface texts, finds no negation term and relates no steps.
\<close>

theorem parse_text_lemmas_counterexample:
  "(0::nat) < 1 \<and>
   1 < length (steps (parse_text stopword_nlp (''nothings cats dogs'' @ [newline] @ ''cat dog''))) \<and>
   negated_overlap
     (meaningful_tokens tok_lemma stopword_nlp
        (step_text
           (steps (parse_text stopword_nlp (''nothings cats dogs'' @ [newline] @ ''cat dog'')) ! 0)))
     (meaningful_tokens tok_lemma stopword_nlp
        (step_text
           (steps (parse_text stopword_nlp (''nothings cats dogs'' @ [newline] @ ''cat dog'')) ! 1))) \<and>
   \<not> pair_related
       (parse_text stopword_nlp (''nothings cats dogs'' @ [newline] @ ''cat dog'')) 0 1 \<and>
   relationships (parse_text stopword_nlp (''nothings cats dogs'' @ [newline] @ ''cat dog'')) = []"
  by code_simp

text \<open>
  C5. Every step of a parsed chain is a CONCLUSION if its lowercased text contains one of
  the conclusion indicators; otherwise it is EVIDENCE if the lowercased text contains one of
  the evidence indicators; otherwise it is a PREMISE. No step is an ASSUMPTION.
\<close>

theorem step_type_priority:
  "\<forall>s \<in> set (steps (parse_text nlp inp)).
     ((\<exists>p \<in> {''therefore'', ''so'', ''thus'', ''hence'', ''as a result''}.
          occurs_in p (lower (step_text s))) \<longrightarrow> step_type s = CONCLUSION) \<and>
     (\<not> (\<exists>p \<in> {''therefore'', ''so'', ''thus'', ''hence'', ''as a result''}.
          occurs_in p (lower (step_text s))) \<and>
      (\<exists>p \<in> {''because'', ''since'', ''as'', ''due to''}.
          occurs_in p (lower (step_text s))) \<longrightarrow> step_type s = EVIDENCE) \<and>
     (\<not> (\<exists>p \<in> {''therefore'', ''so'', ''thus'', ''hence'', ''as a result''}.
          occurs_in p (lower (step_text s))) \<and>
      \<not> (\<exists>p \<in> {''because'', ''since'', ''as'', ''due to''}.
          occurs_in p (lower (step_text s))) \<longrightarrow> step_type s = PREMISE) \<and>
     step_type s \<noteq> ASSUMPTION"
proof
  fix s
  assume "s \<in> set (steps (parse_text nlp inp))"
  then have t: "step_type s = determine_step_type (step_text s)"
    by (rule types_parse_text)
  have c: "any_in conclusion_indicators (lower (step_text s)) =
      (\<exists>p \<in> {''therefore'', ''so'', ''thus'', ''hence'', ''as a result''}.
          occurs_in p (lower (step_text s)))"
    by (simp add: any_in_occurs conclusion_indicators_def)
  have e: "any_in evidence_indicators (lower (step_text s)) =
      (\<exists>p \<in> {''because'', ''since'', ''as'', ''due to''}.
          occurs_in p (lower (step_text s)))"
    by (simp add: any_in_occurs evidence_indicators_def)
  show "((\<exists>p \<in> {''therefore'', ''so'', ''thus'', ''hence'', ''as a result''}.
          occurs_in p (lower (step_text s))) \<longrightarrow> step_type s = CONCLUSION) \<and>
     (\<not> (\<exists>p \<in> {''therefore'', ''so'', ''thus'', ''hence'', ''as a result''}.
          occurs_in p (lower (step_text s))) \<and>
      (\<exists>p \<in> {''because'', ''since'', ''as'', ''due to''}.
          occurs_in p (lower (step_text s))) \<longrightarrow> step_type s = EVIDENCE) \<and>
     (\<not> (\<exists>p \<in> {''therefore'', ''so'', ''thus'', ''hence'', ''as a result''}.
          occurs_in p (lower (step_text s))) \<and>
      \<not> (\<exists>p \<in> {''because'', ''since'', ''as'', ''due to''}.
          occurs_in p (lower (step_text s))) \<longrightarrow> step_type s = PREMISE) \<and>
     step_type s \<noteq> ASSUMPTION"
    unfolding c [symmetric] e [symmetric] t
    by (simp add: determine_step_type_def Let_def)
qed

text \<open>
  C9. In every parsed chain the source and the target of every relationship resolve to a
  step of the chain. The analysis only reads the chain (its model takes the chain and
  returns the issues), so the chain after the analysis is the parsed chain.
\<close>

theorem parse_text_relationships_resolve: "relationships_resolve (parse_text nlp inp)"
  unfolding relationships_resolve_def
proof
  fix r
  let ?c = "parse_text nlp inp"
  assume "r \<in> set (relationships ?c)"
  then obtain i j where ij: "i < j" "j < length (steps ?c)"
    "r = \<lparr>source_id = step_id (steps ?c ! i), target_id = step_id (steps ?c ! j),
          rel_type = CONTRADICTS, rel_confidence = 1\<rparr>"
    unfolding set_rels_parse_text [of nlp inp] by blast
  have "steps ?c ! i \<in> set (steps ?c)" "steps ?c ! j \<in> set (steps ?c)"
    using ij(1,2) by simp_all
  then show "get_step ?c (source_id r) \<noteq> None \<and> get_step ?c (target_id r) \<noteq> None"
    unfolding get_step_def find_None_iff ij(3) by auto
qed

theorem parse_text_segmentation_witness:
  "map step_text (steps (parse_text sample_nlp
      (''1. cat dog'' @ [newline] @ ''   '' @ [newline] @ '' 2) no cat dog''))) =
     [''cat dog'', ''no cat dog''] \<and>
   map step_id (steps (parse_text sample_nlp
      (''1. cat dog'' @ [newline] @ ''   '' @ [newline] @ '' 2) no cat dog''))) = [1, 2]"
proof -
  have s: "surviving_lines (''1. cat dog'' @ [newline] @ ''   '' @ [newline] @ '' 2) no cat dog'') =
      [''cat dog'', ''no cat dog'']"
    by code_simp
  from parse_text_segmentation
    [of sample_nlp "''1. cat dog'' @ [newline] @ ''   '' @ [newline] @ '' 2) no cat dog''"]
  show ?thesis
    unfolding s by (simp add: upt_rec)
qed

theorem step_type_priority_witness:
  "steps (parse_text sample_nlp ''Thus it is wet'') ! 0
     \<in> set (steps (parse_text sample_nlp ''Thus it is wet'')) \<and>
   (\<exists>p \<in> {''therefore'', ''so'', ''thus'', ''hence'', ''as a result''}.
      occurs_in p (lower (step_text (steps (parse_text sample_nlp ''Thus it is wet'') ! 0)))) \<and>
   step_type (steps (parse_text sample_nlp ''Thus it is wet'') ! 0) = CONCLUSION"
proof -
  let ?s = "steps (parse_text sample_nlp ''Thus it is wet'') ! 0"
  have m: "?s \<in> set (steps (parse_text sample_nlp ''Thus it is wet''))"
    by code_simp
  have "py_in ''thus'' (lower (step_text ?s))"
    by code_simp
  then have o: "\<exists>p \<in> {''therefore'', ''so'', ''thus'', ''hence'', ''as a result''}.
      occurs_in p (lower (step_text ?s))"
    unfolding py_in_occurs by blast
  have "step_type ?s = CONCLUSION"
    by (rule step_type_priority [of sample_nlp "''Thus it is wet''", THEN bspec, OF m,
          THEN conjunct1, THEN mp, OF o])
  with m o show ?thesis
    by (intro conjI)
qed

theorem parse_text_relationships_resolve_witness:
  "\<lparr>source_id = 1, target_id = 2, rel_type = CONTRADICTS, rel_confidence = 1\<rparr>
     \<in> set (relationships (parse_text sample_nlp (''cat dog'' @ [newline] @ ''no cat dog''))) \<and>
   get_step (parse_text sample_nlp (''cat dog'' @ [newline] @ ''no cat dog'')) 1 \<noteq> None \<and>
   get_step (parse_text sample_nlp (''cat dog'' @ [newline] @ ''no cat dog'')) 2 \<noteq> None"
proof -
  let ?c = "parse_text sample_nlp (''cat dog'' @ [newline] @ ''no cat dog'')"
  have m: "\<lparr>source_id = 1, target_id = 2, rel_type = CONTRADICTS, rel_confidence = 1\<rparr>
     \<in> set (relationships ?c)"
    by code_simp
  from parse_text_relationships_resolve [of sample_nlp "''cat dog'' @ [newline] @ ''no cat dog''"] m
  show ?thesis
    unfolding relationships_resolve_def by fastforce
qed

section \<open>The contradiction detector\<close>

lemma bind_Inr [simp]: "bind (Inr x) f = f x"
  by (simp add: bind_def)

lemma bind_Inl [simp]: "bind (Inl e) f = Inl e"
  by (simp add: bind_def)

lemma next_step_get_step:
  "get_step chain i = Some s \<Longrightarrow> next_step (steps chain) i = Inr s"
  by (simp add: next_step_def get_step_def)

lemma contradictions_loop_eq:
  "\<forall>r \<in> set rels. get_step chain (source_id r) \<noteq> None \<and> get_step chain (target_id r) \<noteq> None \<Longrightarrow>
   contradictions_loop chain rels issues =
     Inr (issues @ map (expected_contradiction chain)
                     (filter (\<lambda>r. rel_type r = CONTRADICTS) rels))"
proof (induction rels arbitrary: issues)
  case Nil
  then show ?case by simp
next
  case (Cons rel rels)
  from Cons.prems obtain source target where
    st: "get_step chain (source_id rel) = Some source" "get_step chain (target_id rel) = Some target"
    by auto
  from Cons.prems have rest:
    "\<forall>r \<in> set rels. get_step chain (source_id r) \<noteq> None \<and> get_step chain (target_id r) \<noteq> None"
    by simp
  show ?case
    by (simp add: Cons.IH [OF rest] next_step_get_step [OF st(1)] next_step_get_step [OF st(2)]
        expected_contradiction_def st)
qed

lemma find_contradictions_eq:
  "relationships_resolve chain \<Longrightarrow>
   find_contradictions chain =
     Inr (map (expected_contradiction chain)
            (filter (\<lambda>r. rel_type r = CONTRADICTS) (relationships chain)))"
  unfolding find_contradictions_def relationships_resolve_def
  by (simp add: contradictions_loop_eq)

text \<open>
  C3. For every chain of the data model (the source and the target of every relationship
  resolve to a step), the contradiction detector returns exactly one issue for each
  CONTRADICTS relationship of the chain, in order: an issue of type contradiction and
  severity high that carries the two step ids of the relationship and the texts of the two
  steps.
\<close>

theorem find_contradictions_projection:
  assumes "relationships_resolve chain"
  shows "\<exists>issues. find_contradictions chain = Inr issues \<and>
     length issues = length (filter (\<lambda>r. rel_type r = CONTRADICTS) (relationships chain)) \<and>
     (\<forall>k < length issues.
        \<exists>r source target.
          r = filter (\<lambda>r. rel_type r = CONTRADICTS) (relationships chain) ! k \<and>
          get_step chain (source_id r) = Some source \<and>
          get_step chain (target_id r) = Some target \<and>
          field (issues ! k) ''type'' = Some (Str ''contradiction'') \<and>
          field (issues ! k) ''severity'' = Some (Str ''high'') \<and>
          field (issues ! k) ''step_ids'' = Some (Ids [source_id r, target_id r]) \<and>
          field (issues ! k) ''details'' =
            Some (Dict [(''statement_1'', step_text source),
                        (''statement_2'', step_text target)]))"
proof -
  let ?rs = "filter (\<lambda>r. rel_type r = CONTRADICTS) (relationships chain)"
  let ?issues = "map (expected_contradiction chain) ?rs"
  have "\<exists>r source target.
          r = ?rs ! k \<and>
          get_step chain (source_id r) = Some source \<and>
          get_step chain (target_id r) = Some target \<and>
          field (?issues ! k) ''type'' = Some (Str ''contradiction'') \<and>
          field (?issues ! k) ''severity'' = Some (Str ''high'') \<and>
          field (?issues ! k) ''step_ids'' = Some (Ids [source_id r, target_id r]) \<and>
          field (?issues ! k) ''details'' =
            Some (Dict [(''statement_1'', step_text source),
                        (''statement_2'', step_text target)])"
    if k: "k < length ?issues" for k
  proof -
    from k have "?rs ! k \<in> set ?rs"
      by (simp only: length_map nth_mem)
    then have "?rs ! k \<in> set (relationships chain)"
      by (metis filter_is_subset subsetD)
    with assms obtain source target where
      st: "get_step chain (source_id (?rs ! k)) = Some source"
          "get_step chain (target_id (?rs ! k)) = Some target"
      unfolding relationships_resolve_def by auto
    from k have nth: "?issues ! k = expected_contradiction chain (?rs ! k)"
      by simp
    show ?thesis
      unfolding nth
      by (simp add: st expected_contradiction_def contradiction_issue_def field_def)
  qed
  then show ?thesis
    using find_contradictions_eq [OF assms] by simp
qed

theorem find_contradictions_projection_witness:
  "relationships_resolve
     \<lparr>steps = [\<lparr>step_id = 1, step_text = ''cat dog'', step_type = PREMISE,
                 step_confidence = 1, metadata = []\<rparr>,
               \<lparr>step_id = 2, step_text = ''no cat dog'', step_type = PREMISE,
                 step_confidence = 1, metadata = []\<rparr>],
      relationships = [\<lparr>source_id = 2, target_id = 1, rel_type = SUPPORTS, rel_confidence = 1\<rparr>,
                       \<lparr>source_id = 1, target_id = 2, rel_type = CONTRADICTS,
                         rel_confidence = 1\<rparr>]\<rparr> \<and>
   (\<exists>issues.
      find_contradictions
        \<lparr>steps = [\<lparr>step_id = 1, step_text = ''cat dog'', step_type = PREMISE,
                    step_confidence = 1, metadata = []\<rparr>,
                  \<lparr>step_id = 2, step_text = ''no cat dog'', step_type = PREMISE,
                    step_confidence = 1, metadata = []\<rparr>],
         relationships = [\<lparr>source_id = 2, target_id = 1, rel_type = SUPPORTS, rel_confidence = 1\<rparr>,
                          \<lparr>source_id = 1, target_id = 2, rel_type = CONTRADICTS,
                            rel_confidence = 1\<rparr>]\<rparr> = Inr issues \<and>
      length issues = 1)"
proof -
  let ?c = "\<lparr>steps = [\<lparr>step_id = 1, step_text = ''cat dog'', step_type = PREMISE,
                 step_confidence = 1, metadata = []\<rparr>,
               \<lparr>step_id = 2, step_text = ''no cat dog'', step_type = PREMISE,
                 step_confidence = 1, metadata = []\<rparr>],
      relationships = [\<lparr>source_id = 2, target_id = 1, rel_type = SUPPORTS, rel_confidence = 1\<rparr>,
                       \<lparr>source_id = 1, target_id = 2, rel_type = CONTRADICTS,
                         rel_confidence = 1\<rparr>]\<rparr>"
  have h: "relationships_resolve ?c"
    by (simp add: relationships_resolve_def get_step_def)
  from find_contradictions_projection [OF h] h show ?thesis
    by auto
qed

section \<open>Properties of the flow analysis\<close>

lemma py_index_nth: "i < length xs \<Longrightarrow> py_index xs (int i) = Inr (xs ! i)"
  by (simp add: py_index_def)

lemma py_index_Suc: "Suc i < length xs \<Longrightarrow> py_index xs (int i + 1) = Inr (xs ! Suc i)"
  using py_index_nth [of "Suc i" xs] by (simp add: add.commute)

lemma flow_loop_eq:
  "\<forall>i \<in> set is. Suc i < length ss \<Longrightarrow>
   flow_loop ss is acc = Inr (acc @ concat (map (expected_transitions ss) is))"
proof (induction "is" arbitrary: acc)
  case Nil
  then show ?case by simp
next
  case (Cons i "is")
  from Cons.prems have i: "Suc i < length ss" and rest: "\<forall>k \<in> set is. Suc k < length ss"
    by simp_all
  from i have cur: "py_index ss (int i) = Inr (ss ! i)"
    by (simp add: py_index_nth)
  from i have nxt: "py_index ss (int i + 1) = Inr (ss ! Suc i)"
    by (rule py_index_Suc)
  show ?case
    by (simp add: cur nxt Cons.IH [OF rest] expected_transitions_def needs_transition_def
        Let_def)
qed

lemma analyze_flow_eq:
  "analyze_flow chain =
     Inr (concat (map (expected_transitions (steps chain)) [0..<length (steps chain) - 1]))"
proof (cases "length (steps chain) < 2")
  case True
  then have "[0..<length (steps chain) - 1] = []"
    by simp
  with True show ?thesis
    by (simp add: analyze_flow_def)
next
  case False
  have "\<forall>i \<in> set [0..<length (steps chain) - 1]. Suc i < length (steps chain)"
    by auto
  from flow_loop_eq [OF this, of "[]"] False show ?thesis
    by (simp add: analyze_flow_def)
qed

lemma transition_confidence: "field (transition_issue i overlap) ''confidence'' = Some (Num (8/10 - overlap * (3/2)))"
  by (simp add: field_def transition_issue_def)

lemma transition_confidence_bounds:
  fixes overlap :: rat
  assumes "0 \<le> overlap" and "overlap < 4/10"
  shows "1/5 < 8/10 - overlap * (3/2) \<and> 8/10 - overlap * (3/2) \<le> 4/5"
  using assms by simp

lemma topic_overlap_nonneg: "0 \<le> topic_overlap a b"
  by (simp add: topic_overlap_def Let_def)

lemma expected_transitions_confidence:
  assumes "s \<in> set (expected_transitions ss i)" and "field s ''confidence'' = Some (Num q)"
  shows "1/5 < q"
proof -
  let ?o = "topic_overlap (lower (step_text (ss ! i))) (lower (step_text (ss ! Suc i)))"
  from assms(1) have s: "s = transition_issue i ?o" and lt: "?o < 4/10"
    by (auto simp add: expected_transitions_def Let_def split: if_splits)
  from assms(2) s have "q = 8/10 - ?o * (3/2)"
    by (simp add: transition_confidence)
  with transition_confidence_bounds [OF topic_overlap_nonneg lt] show ?thesis
    by simp
qed

lemma analyze_flow_confidence:
  assumes "analyze_flow chain = Inr issues" and "s \<in> set issues"
    and "field s ''confidence'' = Some (Num q)"
  shows "1/5 < q"
proof -
  from assms(1) have
    "issues = concat (map (expected_transitions (steps chain)) [0..<length (steps chain) - 1])"
    by (simp add: analyze_flow_eq)
  with assms(2) obtain i where "s \<in> set (expected_transitions (steps chain) i)"
    by auto
  then show ?thesis
    using assms(3) by (rule expected_transitions_confidence)
qed

lemma emotional_language_loop_types:
  "set (emotional_language_loop i t kinds acc) \<subseteq>
     set acc \<union> {s. field s ''type'' \<noteq> Some (Str ''smooth_transition_needed'')}"
proof (induction kinds arbitrary: acc)
  case Nil
  then show ?case by simp
next
  case (Cons kind kinds)
  obtain sentiment_type indicators where kind: "kind = (sentiment_type, indicators)"
    by (cases kind)
  have "field (emotional_language_issue i sentiment_type) ''type'' \<noteq>
      Some (Str ''smooth_transition_needed'')"
    by (simp add: field_def emotional_language_issue_def)
  with Cons.IH [of acc] show ?case
    unfolding kind by auto
qed

lemma suggestions_loop_types:
  "set (suggestions_loop polarity_of i ss acc) \<subseteq>
     set acc \<union> {s. field s ''type'' \<noteq> Some (Str ''smooth_transition_needed'')}"
proof (induction ss arbitrary: i acc)
  case Nil
  then show ?case by simp
next
  case (Cons step rest)
  let ?other = "{s. field s ''type'' \<noteq> Some (Str ''smooth_transition_needed'')}"
  let ?t = "lower (strip (step_text step))"
  let ?s1 = "emotional_language_loop i ?t emotional_indicators acc"
  let ?s2 = "if any_in subjective_phrases ?t then ?s1 @ [subjective_issue i] else ?s1"
  let ?s3 = "if \<bar>polarity_of ?t\<bar> > 1/2
             then ?s2 @ [strong_sentiment_issue i (polarity_of ?t)] else ?s2"
  have short: "short_step_issue i \<in> ?other"
    by (simp add: field_def short_step_issue_def)
  have subj: "subjective_issue i \<in> ?other"
    by (simp add: field_def subjective_issue_def)
  have strong: "strong_sentiment_issue i (polarity_of ?t) \<in> ?other"
    by (simp add: field_def strong_sentiment_issue_def Let_def)
  have s1: "set ?s1 \<subseteq> set acc \<union> ?other"
    by (rule emotional_language_loop_types)
  from s1 subj have s2: "set ?s2 \<subseteq> set acc \<union> ?other"
    by auto
  from s2 strong have s3: "set ?s3 \<subseteq> set acc \<union> ?other"
    by auto
  consider (empty) "split_ws (strip (step_text step)) = []"
    | (brief) "split_ws (strip (step_text step)) \<noteq> []"
        "length (split_ws (strip (step_text step))) < 3"
    | (long) "split_ws (strip (step_text step)) \<noteq> []"
        "\<not> length (split_ws (strip (step_text step))) < 3"
    by blast
  then show ?case
  proof cases
    case empty
    then have "suggestions_loop polarity_of i (step # rest) acc =
        suggestions_loop polarity_of (Suc i) rest acc"
      by (simp add: Let_def)
    with Cons.IH [of "Suc i" acc] show ?thesis
      by simp
  next
    case brief
    then have "suggestions_loop polarity_of i (step # rest) acc =
        suggestions_loop polarity_of (Suc i) rest (acc @ [short_step_issue i])"
      by (simp add: Let_def)
    with Cons.IH [of "Suc i" "acc @ [short_step_issue i]"] short show ?thesis
      by auto
  next
    case long
    then have "suggestions_loop polarity_of i (step # rest) acc =
        suggestions_loop polarity_of (Suc i) rest ?s3"
      by (simp add: Let_def)
    with Cons.IH [of "Suc i" ?s3] s3 show ?thesis
      by auto
  qed
qed

lemma get_suggestions_eq:
  "get_suggestions polarity_of chain =
     Inr (suggestions_loop polarity_of 0 (steps chain) [] @
          concat (map (expected_transitions (steps chain)) [0..<length (steps chain) - 1]))"
proof (cases "length (steps chain) > 1")
  case True
  then show ?thesis
    by (simp add: get_suggestions_def Let_def analyze_flow_eq)
next
  case False
  then have "[0..<length (steps chain) - 1] = []"
    by simp
  with False show ?thesis
    by (simp add: get_suggestions_def Let_def)
qed

lemma get_suggestions_confidence:
  assumes "get_suggestions polarity_of chain = Inr issues" and "s \<in> set issues"
    and "field s ''type'' = Some (Str ''smooth_transition_needed'')"
    and "field s ''confidence'' = Some (Num q)"
  shows "1/5 < q"
proof -
  let ?flow = "concat (map (expected_transitions (steps chain)) [0..<length (steps chain) - 1])"
  from assms(1) have "issues = suggestions_loop polarity_of 0 (steps chain) [] @ ?flow"
    by (simp add: get_suggestions_eq)
  with assms(2) have "s \<in> set (suggestions_loop polarity_of 0 (steps chain) []) \<or> s \<in> set ?flow"
    by auto
  moreover have "s \<notin> set (suggestions_loop polarity_of 0 (steps chain) [])"
    using suggestions_loop_types [of polarity_of 0 "steps chain" "[]"] assms(3) by auto
  ultimately obtain i where "s \<in> set (expected_transitions (steps chain) i)"
    by auto
  then show ?thesis
    using assms(4) by (rule expected_transitions_confidence)
qed

text \<open>Claim C8, amended. For every chain the secondary scorer returns the suggestions of
  its pass over the single steps, none of which is a \<open>smooth_transition_needed\<close>
  suggestion, followed by one list for each pair of consecutive steps. Where the next step
  holds no transition indicator and the topic overlap is below 0.4, the list of the pair is
  one \<open>smooth_transition_needed\<close> suggestion whose confidence is exactly
  0.8 - overlap * 1.5; otherwise it is empty. The confidence is not clamped, and it needs no
  clamp: the overlap lies between 0 and 0.4 wherever a suggestion is emitted, so the
  confidence is above 0.2 and at most 0.8.\<close>

theorem get_suggestions_transitions:
  "\<exists>per_step per_pair.
     get_suggestions polarity_of chain = Inr (per_step @ concat per_pair) \<and>
     (\<forall>s \<in> set per_step. field s ''type'' \<noteq> Some (Str ''smooth_transition_needed'')) \<and>
     length per_pair = length (steps chain) - 1 \<and>
     (\<forall>i < length (steps chain) - 1.
        let next_text = lower (step_text (steps chain ! Suc i));
            overlap = topic_overlap (lower (step_text (steps chain ! i))) next_text
        in if \<not> any_in transition_indicators next_text \<and> overlap < 4/10
           then per_pair ! i = [transition_issue i overlap] \<and>
                field (transition_issue i overlap) ''type'' =
                  Some (Str ''smooth_transition_needed'') \<and>
                field (transition_issue i overlap) ''confidence'' =
                  Some (Num (8/10 - overlap * (3/2))) \<and>
                1/5 < 8/10 - overlap * (3/2) \<and> 8/10 - overlap * (3/2) \<le> 4/5
           else per_pair ! i = [])"
proof -
  let ?ss = "steps chain"
  let ?pp = "map (expected_transitions ?ss) [0..<length ?ss - 1]"
  let ?ps = "suggestions_loop polarity_of 0 ?ss []"
  have a: "get_suggestions polarity_of chain = Inr (?ps @ concat ?pp)"
    by (rule get_suggestions_eq)
  have t: "\<forall>s \<in> set ?ps. field s ''type'' \<noteq> Some (Str ''smooth_transition_needed'')"
    using suggestions_loop_types [of polarity_of 0 ?ss "[]"] by auto
  have b: "length ?pp = length ?ss - 1"
    by simp
  have c: "\<forall>i < length ?ss - 1.
        let next_text = lower (step_text (?ss ! Suc i));
            overlap = topic_overlap (lower (step_text (?ss ! i))) next_text
        in if \<not> any_in transition_indicators next_text \<and> overlap < 4/10
           then ?pp ! i = [transition_issue i overlap] \<and>
                field (transition_issue i overlap) ''type'' =
                  Some (Str ''smooth_transition_needed'') \<and>
                field (transition_issue i overlap) ''confidence'' =
                  Some (Num (8/10 - overlap * (3/2))) \<and>
                1/5 < 8/10 - overlap * (3/2) \<and> 8/10 - overlap * (3/2) \<le> 4/5
           else ?pp ! i = []"
  proof (intro allI impI)
    fix i assume i: "i < length ?ss - 1"
    let ?o = "topic_overlap (lower (step_text (?ss ! i))) (lower (step_text (?ss ! Suc i)))"
    have nth: "?pp ! i = expected_transitions ?ss i"
      using i by simp
    have ty: "field (transition_issue i ?o) ''type'' = Some (Str ''smooth_transition_needed'')"
      by (simp add: field_def transition_issue_def)
    show "let next_text = lower (step_text (?ss ! Suc i));
            overlap = topic_overlap (lower (step_text (?ss ! i))) next_text
        in if \<not> any_in transition_indicators next_text \<and> overlap < 4/10
           then ?pp ! i = [transition_issue i overlap] \<and>
                field (transition_issue i overlap) ''type'' =
                  Some (Str ''smooth_transition_needed'') \<and>
                field (transition_issue i overlap) ''confidence'' =
                  Some (Num (8/10 - overlap * (3/2))) \<and>
                1/5 < 8/10 - overlap * (3/2) \<and> 8/10 - overlap * (3/2) \<le> 4/5
           else ?pp ! i = []"
    proof (cases "\<not> any_in transition_indicators (lower (step_text (?ss ! Suc i))) \<and> ?o < 4/10")
      case True
      then have lt: "?o < 4/10" by simp
      from True have "?pp ! i = [transition_issue i ?o]"
        unfolding nth by (simp add: expected_transitions_def Let_def)
      with True ty transition_confidence [of i ?o]
        transition_confidence_bounds [OF topic_overlap_nonneg lt]
      show ?thesis
        unfolding Let_def by simp
    next
      case False
      then have "?pp ! i = []"
        unfolding nth by (auto simp add: expected_transitions_def Let_def)
      with False show ?thesis
        unfolding Let_def by auto
    qed
  qed
  from a t b c show ?thesis
    by blast
qed

theorem get_suggestions_transitions_witness:
  "\<exists>per_step per_pair.
     get_suggestions (\<lambda>t. 0)
       (parse_text sample_nlp (''Cats chase mice daily'' @ [newline] @ ''Dogs chase cars rarely''))
       = Inr (per_step @ concat per_pair) \<and>
     length per_pair = 1 \<and>
     per_pair ! 0 = [transition_issue 0 (1/4)] \<and>
     field (transition_issue 0 (1/4)) ''confidence'' = Some (Num (17/40))"
proof -
  define c where "c = parse_text sample_nlp
      (''Cats chase mice daily'' @ [newline] @ ''Dogs chase cars rarely'')"
  have n: "length (steps c) - 1 = 1"
    unfolding c_def by code_simp
  have o: "topic_overlap (lower (step_text (steps c ! 0)))
      (lower (step_text (steps c ! Suc 0))) = 1/4"
    unfolding c_def by code_simp
  have k: "\<not> any_in transition_indicators (lower (step_text (steps c ! Suc 0)))"
    unfolding c_def by code_simp
  from get_suggestions_transitions [of "\<lambda>t. 0" c] obtain per_step per_pair where
    a: "get_suggestions (\<lambda>t. 0) c = Inr (per_step @ concat per_pair)" and
    b: "length per_pair = length (steps c) - 1" and
    all: "\<forall>i < length (steps c) - 1.
        let next_text = lower (step_text (steps c ! Suc i));
            overlap = topic_overlap (lower (step_text (steps c ! i))) next_text
        in if \<not> any_in transition_indicators next_text \<and> overlap < 4/10
           then per_pair ! i = [transition_issue i overlap] \<and>
                field (transition_issue i overlap) ''type'' =
                  Some (Str ''smooth_transition_needed'') \<and>
                field (transition_issue i overlap) ''confidence'' =
                  Some (Num (8/10 - overlap * (3/2))) \<and>
                1/5 < 8/10 - overlap * (3/2) \<and> 8/10 - overlap * (3/2) \<le> 4/5
           else per_pair ! i = []"
    by blast
  from all n have "let next_text = lower (step_text (steps c ! Suc 0));
            overlap = topic_overlap (lower (step_text (steps c ! 0))) next_text
        in if \<not> any_in transition_indicators next_text \<and> overlap < 4/10
           then per_pair ! 0 = [transition_issue 0 overlap] \<and>
                field (transition_issue 0 overlap) ''type'' =
                  Some (Str ''smooth_transition_needed'') \<and>
                field (transition_issue 0 overlap) ''confidence'' =
                  Some (Num (8/10 - overlap * (3/2))) \<and>
                1/5 < 8/10 - overlap * (3/2) \<and> 8/10 - overlap * (3/2) \<le> 4/5
           else per_pair ! 0 = []"
    by simp
  from this [unfolded Let_def o] k
  have d: "per_pair ! 0 = [transition_issue 0 (1/4)] \<and>
      field (transition_issue 0 (1/4)) ''confidence'' = Some (Num (17/40))"
    by simp
  from b n have b': "length per_pair = 1"
    by simp
  from a b' d show ?thesis
    unfolding c_def by blast
qed

text \<open>The sentence of claim C8 that the confidence can go below 0 for some chain does not
  hold: no chain and no sentiment scorer make the secondary scorer return a
  \<open>smooth_transition_needed\<close> suggestion with a negative confidence.\<close>

theorem transition_confidence_never_negative:
  "\<not> (\<exists>polarity_of chain issues s q.
        get_suggestions polarity_of chain = Inr issues \<and> s \<in> set issues \<and>
        field s ''type'' = Some (Str ''smooth_transition_needed'') \<and>
        field s ''confidence'' = Some (Num q) \<and> q < 0)"
proof
  assume "\<exists>polarity_of chain issues s q.
        get_suggestions polarity_of chain = Inr issues \<and> s \<in> set issues \<and>
        field s ''type'' = Some (Str ''smooth_transition_needed'') \<and>
        field s ''confidence'' = Some (Num q) \<and> q < 0"
  then obtain polarity_of chain issues s and q :: rat where
    emitted: "get_suggestions polarity_of chain = Inr issues" "s \<in> set issues"
      "field s ''type'' = Some (Str ''smooth_transition_needed'')"
      "field s ''confidence'' = Some (Num q)" and neg: "q < 0"
    by blast
  from emitted have "1/5 < q"
    by (rule get_suggestions_confidence)
  with neg show False
    by simp
qed

section \<open>Properties of the unsupported-claims pass\<close>

lemma indicator_loop_eq:
  "indicator_loop step t inds issues =
     issues @
     (if any_in softening_phrases t \<or> any_in conditional_markers t then []
      else (case find (\<lambda>(indicator, confidence). py_in indicator t) inds of
              None \<Rightarrow> []
            | Some (indicator, confidence) \<Rightarrow> [assumption_issue step confidence]))"
proof (induction inds)
  case Nil
  then show ?case by simp
next
  case (Cons ind inds)
  obtain indicator confidence where ind: "ind = (indicator, confidence)"
    by (cases ind)
  show ?case
    unfolding ind using Cons.IH by simp
qed

lemma assumption_loop_eq:
  "assumption_loop ss issues = issues @ concat (map expected_assumptions ss)"
proof (induction ss arbitrary: issues)
  case Nil
  then show ?case by simp
next
  case (Cons step rest)
  have "indicator_loop step (lower (step_text step)) assumption_indicators issues =
      issues @ expected_assumptions step"
    by (simp add: indicator_loop_eq expected_assumptions_def Let_def)
  then show ?case
    by (simp add: Cons.IH)
qed

lemma assumption_issue_type:
  "field (assumption_issue step confidence) ''type'' = Some (Str ''potential_assumption'')"
  by (simp add: field_def assumption_issue_def)

lemma assumption_issue_severity:
  "field (assumption_issue step confidence) ''severity'' = Some (Str ''low'')"
  by (simp add: field_def assumption_issue_def)

lemma assumption_issue_confidence:
  "field (assumption_issue step confidence) ''confidence'' = Some (Num confidence)"
  by (simp add: field_def assumption_issue_def)

lemma support_issue_type:
  "field (support_issue step) ''type'' = Some (Str ''consider_adding_support'')"
  by (simp add: field_def support_issue_def)

lemma planning_issue_type: "field planning_issue ''type'' = Some (Str ''planning_analysis'')"
  by (simp add: field_def planning_issue_def)

lemma support_loop_elems:
  "set (support_loop chain ss issues) \<subseteq> set issues \<union> support_issue ` set ss"
proof (induction ss arbitrary: issues)
  case Nil
  then show ?case by simp
next
  case (Cons step rest)
  from Cons.IH [of issues] Cons.IH [of "issues @ [support_issue step]"] show ?case
    by (auto simp add: Let_def)
qed

lemma expected_assumptions_elems:
  "issue \<in> set (expected_assumptions step) \<Longrightarrow>
   \<exists>confidence. issue = assumption_issue step confidence"
  by (auto simp add: expected_assumptions_def Let_def split: if_splits option.splits)

lemma filter_expected_assumptions:
  "filter (\<lambda>i. field i ''type'' = Some (Str ''potential_assumption''))
     (concat (map expected_assumptions ss)) = concat (map expected_assumptions ss)"
proof -
  have "\<forall>i \<in> set (concat (map expected_assumptions ss)).
      field i ''type'' = Some (Str ''potential_assumption'')"
    using expected_assumptions_elems assumption_issue_type by fastforce
  then show ?thesis
    by (simp only: filter_True)
qed

lemma filter_support_loop:
  "filter (\<lambda>i. field i ''type'' = Some (Str ''potential_assumption''))
     (support_loop chain ss []) = []"
proof -
  have "\<forall>i \<in> set (support_loop chain ss []).
      field i ''type'' \<noteq> Some (Str ''potential_assumption'')"
    using support_loop_elems [of chain ss "[]"] support_issue_type by fastforce
  then show ?thesis
    by (simp only: filter_False)
qed

lemma filter_planning_issue:
  "filter (\<lambda>i. field i ''type'' = Some (Str ''potential_assumption'')) [planning_issue] = []"
  by (simp add: planning_issue_type)

lemma find_unsupported_claims_assumptions:
  "filter (\<lambda>i. field i ''type'' = Some (Str ''potential_assumption''))
     (find_unsupported_claims chain) = concat (map expected_assumptions (steps chain))"
  unfolding find_unsupported_claims_def Let_def assumption_loop_eq filter_append
    filter_expected_assumptions
  by (simp add: filter_support_loop planning_issue_type)

lemma softening_phrases_occur:
  "any_in softening_phrases t =
     (\<exists>p \<in> {''i should'', ''we should'', ''you should'', ''one should'',
             ''i must'', ''we must'', ''you must'', ''one must'',
             ''i have to'', ''we have to'', ''you have to''}. occurs_in p t)"
  by (simp add: any_in_occurs softening_phrases_def)

lemma conditional_markers_occur:
  "any_in conditional_markers t = (\<exists>p \<in> {''if '', ''when '', ''unless ''}. occurs_in p t)"
  by (simp add: any_in_occurs conditional_markers_def)

lemma first_indicator_occurs:
  "find (\<lambda>(indicator, confidence). py_in indicator t) assumption_indicators =
   find (\<lambda>(indicator, confidence). occurs_in indicator t)
     [(''must'', 9/10), (''should'', 7/10), (''have to'', 6/10), (''need to'', 5/10),
      (''ought to'', 8/10), (''always'', 9/10), (''never'', 9/10)]"
  by (simp only: assumption_indicators_def py_in_occurs)

lemma expected_assumptions_spec:
  "length (expected_assumptions step) \<le> 1 \<and>
   (any_in softening_phrases (lower (step_text step)) \<or>
    any_in conditional_markers (lower (step_text step)) \<longrightarrow>
      expected_assumptions step = []) \<and>
   (\<not> any_in softening_phrases (lower (step_text step)) \<and>
    \<not> any_in conditional_markers (lower (step_text step)) \<longrightarrow>
      (case find (\<lambda>(indicator, confidence). py_in indicator (lower (step_text step)))
              assumption_indicators of
         None \<Rightarrow> expected_assumptions step = []
       | Some (indicator, confidence) \<Rightarrow>
           expected_assumptions step = [assumption_issue step confidence] \<and>
           field (assumption_issue step confidence) ''type'' =
             Some (Str ''potential_assumption'') \<and>
           field (assumption_issue step confidence) ''severity'' = Some (Str ''low'') \<and>
           field (assumption_issue step confidence) ''confidence'' =
             Some (Num confidence)))"
  by (simp add: expected_assumptions_def Let_def assumption_issue_type
      assumption_issue_severity assumption_issue_confidence split: option.splits)

text \<open>Claim C6, amended. For every chain, the \<open>potential_assumption\<close> issues that the
  unsupported-claims pass returns are, in order, one list for each step of the chain, and
  the list of a step holds at most one issue. The step is skipped (its list is empty) when
  its lowercased text holds, anywhere, one of the eleven phrases \<open>i should\<close>, \<open>we should\<close>,
  \<open>you should\<close>, \<open>one should\<close>, \<open>i must\<close>, \<open>we must\<close>, \<open>you must\<close>, \<open>one must\<close>,
  \<open>i have to\<close>, \<open>we have to\<close>, \<open>you have to\<close>, or one of the conditional markers \<open>if \<close>,
  \<open>when \<close>, \<open>unless \<close>. Otherwise the list is empty when no assumption indicator occurs
  in the text, and else it is the one issue of the first indicator, in the order \<open>must\<close>,
  \<open>should\<close>, \<open>have to\<close>, \<open>need to\<close>, \<open>ought to\<close>, \<open>always\<close>, \<open>never\<close>, that occurs in
  the text: its severity is \<open>low\<close> and its confidence is the weight of that indicator. No
  other frame skips a step: a subject before \<open>need to\<close>, \<open>ought to\<close>, \<open>always\<close> or
  \<open>never\<close> does not.\<close>

theorem potential_assumption_per_step:
  "\<exists>per_step.
     filter (\<lambda>i. field i ''type'' = Some (Str ''potential_assumption''))
       (find_unsupported_claims chain) = concat per_step \<and>
     length per_step = length (steps chain) \<and>
     (\<forall>k < length (steps chain).
        length (per_step ! k) \<le> 1 \<and>
        ((\<exists>p \<in> {''i should'', ''we should'', ''you should'', ''one should'',
                 ''i must'', ''we must'', ''you must'', ''one must'',
                 ''i have to'', ''we have to'', ''you have to''}.
            occurs_in p (lower (step_text (steps chain ! k)))) \<or>
         (\<exists>p \<in> {''if '', ''when '', ''unless ''}.
            occurs_in p (lower (step_text (steps chain ! k)))) \<longrightarrow>
           per_step ! k = []) \<and>
        (\<not> (\<exists>p \<in> {''i should'', ''we should'', ''you should'', ''one should'',
                   ''i must'', ''we must'', ''you must'', ''one must'',
                   ''i have to'', ''we have to'', ''you have to''}.
              occurs_in p (lower (step_text (steps chain ! k)))) \<and>
         \<not> (\<exists>p \<in> {''if '', ''when '', ''unless ''}.
              occurs_in p (lower (step_text (steps chain ! k)))) \<longrightarrow>
           (case find (\<lambda>(indicator, confidence).
                         occurs_in indicator (lower (step_text (steps chain ! k))))
                   [(''must'', 9/10), (''should'', 7/10), (''have to'', 6/10),
                    (''need to'', 5/10), (''ought to'', 8/10), (''always'', 9/10),
                    (''never'', 9/10)] of
              None \<Rightarrow> per_step ! k = []
            | Some (indicator, confidence) \<Rightarrow>
                per_step ! k = [assumption_issue (steps chain ! k) confidence] \<and>
                field (assumption_issue (steps chain ! k) confidence) ''type'' =
                  Some (Str ''potential_assumption'') \<and>
                field (assumption_issue (steps chain ! k) confidence) ''severity'' =
                  Some (Str ''low'') \<and>
                field (assumption_issue (steps chain ! k) confidence) ''confidence'' =
                  Some (Num confidence))))"
proof -
  let ?pp = "map expected_assumptions (steps chain)"
  have a: "filter (\<lambda>i. field i ''type'' = Some (Str ''potential_assumption''))
       (find_unsupported_claims chain) = concat ?pp"
    by (rule find_unsupported_claims_assumptions)
  have b: "length ?pp = length (steps chain)"
    by simp
  have c: "\<forall>k < length (steps chain).
        length (?pp ! k) \<le> 1 \<and>
        ((\<exists>p \<in> {''i should'', ''we should'', ''you should'', ''one should'',
                 ''i must'', ''we must'', ''you must'', ''one must'',
                 ''i have to'', ''we have to'', ''you have to''}.
            occurs_in p (lower (step_text (steps chain ! k)))) \<or>
         (\<exists>p \<in> {''if '', ''when '', ''unless ''}.
            occurs_in p (lower (step_text (steps chain ! k)))) \<longrightarrow>
           ?pp ! k = []) \<and>
        (\<not> (\<exists>p \<in> {''i should'', ''we should'', ''you should'', ''one should'',
                   ''i must'', ''we must'', ''you must'', ''one must'',
                   ''i have to'', ''we have to'', ''you have to''}.
              occurs_in p (lower (step_text (steps chain ! k)))) \<and>
         \<not> (\<exists>p \<in> {''if '', ''when '', ''unless ''}.
              occurs_in p (lower (step_text (steps chain ! k)))) \<longrightarrow>
           (case find (\<lambda>(indicator, confidence).
                         occurs_in indicator (lower (step_text (steps chain ! k))))
                   [(''must'', 9/10), (''should'', 7/10), (''have to'', 6/10),
                    (''need to'', 5/10), (''ought to'', 8/10), (''always'', 9/10),
                    (''never'', 9/10)] of
              None \<Rightarrow> ?pp ! k = []
            | Some (indicator, confidence) \<Rightarrow>
                ?pp ! k = [assumption_issue (steps chain ! k) confidence] \<and>
                field (assumption_issue (steps chain ! k) confidence) ''type'' =
                  Some (Str ''potential_assumption'') \<and>
                field (assumption_issue (steps chain ! k) confidence) ''severity'' =
                  Some (Str ''low'') \<and>
                field (assumption_issue (steps chain ! k) confidence) ''confidence'' =
                  Some (Num confidence)))"
  proof (intro allI impI)
    fix k assume k: "k < length (steps chain)"
    then have nth: "?pp ! k = expected_assumptions (steps chain ! k)"
      by simp
    from expected_assumptions_spec [of "steps chain ! k"]
    show "length (?pp ! k) \<le> 1 \<and>
        ((\<exists>p \<in> {''i should'', ''we should'', ''you should'', ''one should'',
                 ''i must'', ''we must'', ''you must'', ''one must'',
                 ''i have to'', ''we have to'', ''you have to''}.
            occurs_in p (lower (step_text (steps chain ! k)))) \<or>
         (\<exists>p \<in> {''if '', ''when '', ''unless ''}.
            occurs_in p (lower (step_text (steps chain ! k)))) \<longrightarrow>
           ?pp ! k = []) \<and>
        (\<not> (\<exists>p \<in> {''i should'', ''we should'', ''you should'', ''one should'',
                   ''i must'', ''we must'', ''you must'', ''one must'',
                   ''i have to'', ''we have to'', ''you have to''}.
              occurs_in p (lower (step_text (steps chain ! k)))) \<and>
         \<not> (\<exists>p \<in> {''if '', ''when '', ''unless ''}.
              occurs_in p (lower (step_text (steps chain ! k)))) \<longrightarrow>
           (case find (\<lambda>(indicator, confidence).
                         occurs_in indicator (lower (step_text (steps chain ! k))))
                   [(''must'', 9/10), (''should'', 7/10), (''have to'', 6/10),
                    (''need to'', 5/10), (''ought to'', 8/10), (''always'', 9/10),
                    (''never'', 9/10)] of
              None \<Rightarrow> ?pp ! k = []
            | Some (indicator, confidence) \<Rightarrow>
                ?pp ! k = [assumption_issue (steps chain ! k) confidence] \<and>
                field (assumption_issue (steps chain ! k) confidence) ''type'' =
                  Some (Str ''potential_assumption'') \<and>
                field (assumption_issue (steps chain ! k) confidence) ''severity'' =
                  Some (Str ''low'') \<and>
                field (assumption_issue (steps chain ! k) confidence) ''confidence'' =
                  Some (Num confidence)))"
      unfolding nth softening_phrases_occur conditional_markers_occur first_indicator_occurs .
  qed
  from a b c show ?thesis
    by blast
qed

theorem potential_assumption_per_step_witness:
  "\<exists>per_step.
     filter (\<lambda>i. field i ''type'' = Some (Str ''potential_assumption''))
       (find_unsupported_claims
          (parse_text sample_nlp
             (''Drivers should never speed'' @ [newline] @ ''We must go home'' @ [newline] @
              ''If it rains we never go'' @ [newline] @ ''Water is wet''))) =
       concat per_step \<and>
     length per_step = 4 \<and>
     per_step ! 0 =
       [assumption_issue
          \<lparr>step_id = 1, step_text = ''Drivers should never speed'', step_type = PREMISE,
           step_confidence = 1, metadata = []\<rparr> (7/10)] \<and>
     per_step ! 1 = [] \<and> per_step ! 2 = [] \<and> per_step ! 3 = []"
proof -
  define c where "c = parse_text sample_nlp
      (''Drivers should never speed'' @ [newline] @ ''We must go home'' @ [newline] @
       ''If it rains we never go'' @ [newline] @ ''Water is wet'')"
  define s0 where "s0 =
      \<lparr>step_id = 1, step_text = ''Drivers should never speed'', step_type = PREMISE,
       step_confidence = 1, metadata = []\<rparr>"
  have n: "length (steps c) = 4"
    unfolding c_def by code_simp
  have st0: "steps c ! 0 = s0"
    unfolding c_def s0_def by code_simp
  have soft0: "\<not> (\<exists>p \<in> {''i should'', ''we should'', ''you should'', ''one should'',
                   ''i must'', ''we must'', ''you must'', ''one must'',
                   ''i have to'', ''we have to'', ''you have to''}.
              occurs_in p (lower (step_text (steps c ! 0))))"
    unfolding py_in_occurs [symmetric] c_def by code_simp
  have cond0: "\<not> (\<exists>p \<in> {''if '', ''when '', ''unless ''}.
      occurs_in p (lower (step_text (steps c ! 0))))"
    unfolding py_in_occurs [symmetric] c_def by code_simp
  have first0: "find (\<lambda>(indicator, confidence).
                         occurs_in indicator (lower (step_text (steps c ! 0))))
                   [(''must'', 9/10 :: rat), (''should'', 7/10), (''have to'', 6/10),
                    (''need to'', 5/10), (''ought to'', 8/10), (''always'', 9/10),
                    (''never'', 9/10)] = Some (''should'', 7/10)"
    unfolding py_in_occurs [symmetric] c_def by code_simp
  have soft1: "\<exists>p \<in> {''i should'', ''we should'', ''you should'', ''one should'',
                   ''i must'', ''we must'', ''you must'', ''one must'',
                   ''i have to'', ''we have to'', ''you have to''}.
              occurs_in p (lower (step_text (steps c ! 1)))"
    unfolding py_in_occurs [symmetric] c_def by code_simp
  have cond2: "\<exists>p \<in> {''if '', ''when '', ''unless ''}.
      occurs_in p (lower (step_text (steps c ! 2)))"
    unfolding py_in_occurs [symmetric] c_def by code_simp
  have soft3: "\<not> (\<exists>p \<in> {''i should'', ''we should'', ''you should'', ''one should'',
                   ''i must'', ''we must'', ''you must'', ''one must'',
                   ''i have to'', ''we have to'', ''you have to''}.
              occurs_in p (lower (step_text (steps c ! 3))))"
    unfolding py_in_occurs [symmetric] c_def by code_simp
  have cond3: "\<not> (\<exists>p \<in> {''if '', ''when '', ''unless ''}.
      occurs_in p (lower (step_text (steps c ! 3))))"
    unfolding py_in_occurs [symmetric] c_def by code_simp
  have first3: "find (\<lambda>(indicator, confidence).
                         occurs_in indicator (lower (step_text (steps c ! 3))))
                   [(''must'', 9/10 :: rat), (''should'', 7/10), (''have to'', 6/10),
                    (''need to'', 5/10), (''ought to'', 8/10), (''always'', 9/10),
                    (''never'', 9/10)] = None"
    unfolding py_in_occurs [symmetric] c_def by code_simp
  from potential_assumption_per_step [of c] obtain per_step where
    a: "filter (\<lambda>i. field i ''type'' = Some (Str ''potential_assumption''))
       (find_unsupported_claims c) = concat per_step" and
    b: "length per_step = length (steps c)" and
    all: "\<forall>k < length (steps c).
        length (per_step ! k) \<le> 1 \<and>
        ((\<exists>p \<in> {''i should'', ''we should'', ''you should'', ''one should'',
                 ''i must'', ''we must'', ''you must'', ''one must'',
                 ''i have to'', ''we have to'', ''you have to''}.
            occurs_in p (lower (step_text (steps c ! k)))) \<or>
         (\<exists>p \<in> {''if '', ''when '', ''unless ''}.
            occurs_in p (lower (step_text (steps c ! k)))) \<longrightarrow>
           per_step ! k = []) \<and>
        (\<not> (\<exists>p \<in> {''i should'', ''we should'', ''you should'', ''one should'',
                   ''i must'', ''we must'', ''you must'', ''one must'',
                   ''i have to'', ''we have to'', ''you have to''}.
              occurs_in p (lower (step_text (steps c ! k)))) \<and>
         \<not> (\<exists>p \<in> {''if '', ''when '', ''unless ''}.
              occurs_in p (lower (step_text (steps c ! k)))) \<longrightarrow>
           (case find (\<lambda>(indicator, confidence).
                         occurs_in indicator (lower (step_text (steps c ! k))))
                   [(''must'', 9/10), (''should'', 7/10), (''have to'', 6/10),
                    (''need to'', 5/10), (''ought to'', 8/10), (''always'', 9/10),
                    (''never'', 9/10)] of
              None \<Rightarrow> per_step ! k = []
            | Some (indicator, confidence) \<Rightarrow>
                per_step ! k = [assumption_issue (steps c ! k) confidence] \<and>
                field (assumption_issue (steps c ! k) confidence) ''type'' =
                  Some (Str ''potential_assumption'') \<and>
                field (assumption_issue (steps c ! k) confidence) ''severity'' =
                  Some (Str ''low'') \<and>
                field (assumption_issue (steps c ! k) confidence) ''confidence'' =
                  Some (Num confidence)))"
    by blast
  have k0: "0 < length (steps c)" and k1: "1 < length (steps c)"
    and k2: "2 < length (steps c)" and k3: "3 < length (steps c)"
    using n by simp_all
  note at0 = all [rule_format, OF k0]
  note at1 = all [rule_format, OF k1]
  note at2 = all [rule_format, OF k2]
  note at3 = all [rule_format, OF k3]
  from at0 soft0 cond0 have
    "case find (\<lambda>(indicator, confidence).
                         occurs_in indicator (lower (step_text (steps c ! 0))))
                   [(''must'', 9/10), (''should'', 7/10), (''have to'', 6/10),
                    (''need to'', 5/10), (''ought to'', 8/10), (''always'', 9/10),
                    (''never'', 9/10)] of
              None \<Rightarrow> per_step ! 0 = []
            | Some (indicator, confidence) \<Rightarrow>
                per_step ! 0 = [assumption_issue (steps c ! 0) confidence] \<and>
                field (assumption_issue (steps c ! 0) confidence) ''type'' =
                  Some (Str ''potential_assumption'') \<and>
                field (assumption_issue (steps c ! 0) confidence) ''severity'' =
                  Some (Str ''low'') \<and>
                field (assumption_issue (steps c ! 0) confidence) ''confidence'' =
                  Some (Num confidence)"
    by blast
  from this [unfolded first0] have p0: "per_step ! 0 = [assumption_issue s0 (7/10)]"
    unfolding st0 by simp
  from at1 soft1 have p1: "per_step ! 1 = []"
    by blast
  from at2 cond2 have p2: "per_step ! 2 = []"
    by blast
  from at3 soft3 cond3 have
    "case find (\<lambda>(indicator, confidence).
                         occurs_in indicator (lower (step_text (steps c ! 3))))
                   [(''must'', 9/10), (''should'', 7/10), (''have to'', 6/10),
                    (''need to'', 5/10), (''ought to'', 8/10), (''always'', 9/10),
                    (''never'', 9/10)] of
              None \<Rightarrow> per_step ! 3 = []
            | Some (indicator, confidence) \<Rightarrow>
                per_step ! 3 = [assumption_issue (steps c ! 3) confidence] \<and>
                field (assumption_issue (steps c ! 3) confidence) ''type'' =
                  Some (Str ''potential_assumption'') \<and>
                field (assumption_issue (steps c ! 3) confidence) ''severity'' =
                  Some (Str ''low'') \<and>
                field (assumption_issue (steps c ! 3) confidence) ''confidence'' =
                  Some (Num confidence)"
    by blast
  from this [unfolded first3] have p3: "per_step ! 3 = []"
    by simp
  from b n have b': "length per_step = 4"
    by simp
  from a b' p0 p1 p2 p3 show ?thesis
    unfolding c_def s0_def by blast
qed

text \<open>Claim C6 as stated skips a step whenever a first-person, second-person or indefinite
  subject frames the indicator. The source skips for its eleven phrases only, which frame
  \<open>should\<close>, \<open>must\<close> and \<open>have to\<close>: each of the one-step chains parsed from
  \<open>I need to go home\<close>, \<open>We ought to leave now\<close>, \<open>You always win\<close> and \<open>I never lie\<close>
  gets a \<open>potential_assumption\<close> issue, with the weight of its indicator.\<close>

theorem framed_indicator_not_skipped:
  "filter (\<lambda>i. field i ''type'' = Some (Str ''potential_assumption''))
     (find_unsupported_claims (parse_text sample_nlp ''I need to go home'')) =
     [assumption_issue (steps (parse_text sample_nlp ''I need to go home'') ! 0) (5/10)] \<and>
   filter (\<lambda>i. field i ''type'' = Some (Str ''potential_assumption''))
     (find_unsupported_claims (parse_text sample_nlp ''We ought to leave now'')) =
     [assumption_issue (steps (parse_text sample_nlp ''We ought to leave now'') ! 0) (8/10)] \<and>
   filter (\<lambda>i. field i ''type'' = Some (Str ''potential_assumption''))
     (find_unsupported_claims (parse_text sample_nlp ''You always win'')) =
     [assumption_issue (steps (parse_text sample_nlp ''You always win'') ! 0) (9/10)] \<and>
   filter (\<lambda>i. field i ''type'' = Some (Str ''potential_assumption''))
     (find_unsupported_claims (parse_text sample_nlp ''I never lie'')) =
     [assumption_issue (steps (parse_text sample_nlp ''I never lie'') ! 0) (9/10)]"
  by code_simp

section \<open>The circular-reasoning pass always returns\<close>

lemma find_sep_py_in: "py_in sep s \<Longrightarrow> find_sep sep s \<noteq> None"
  by (induction s) auto

lemma part1_split_once:
  "py_in sep s \<Longrightarrow> part1 (split_once sep s) = Inr (the (snd (split_once sep s)))"
  using find_sep_py_in [of sep s]
  by (auto simp add: part1_def split_once_def split: option.splits)

lemma part1_error: "part1 parts = Inl e \<Longrightarrow> e = IndexError"
  by (simp add: part1_def split: option.splits)

lemma circular_swapped_returns: "\<exists>b. circular_swapped text1 text2 = Inr b"
  by (auto simp add: circular_swapped_def Let_def part1_split_once split: if_splits)

lemma circular_reworded_returns: "\<exists>b. circular_reworded nlp text1 text2 = Inr b"
  by (auto simp add: circular_reworded_def Let_def part1_split_once split: if_splits)

lemma bind_Inl_iff:
  "bind m f = Inl e \<longleftrightarrow> m = Inl e \<or> (\<exists>x. m = Inr x \<and> f x = Inl e)"
  by (cases m) simp_all

lemma circular_subjects_try_error:
  "circular_subjects_try text1 text2 = Inl e \<Longrightarrow> e = IndexError"
  unfolding circular_subjects_try_def
  by (auto simp add: bind_Inl_iff dest: part1_error split: if_splits prod.splits)

lemma circular_subjects_returns: "\<exists>b. circular_subjects text1 text2 = Inr b"
proof (cases "circular_subjects_try text1 text2")
  case (Inl e)
  then have "e = IndexError"
    by (rule circular_subjects_try_error)
  with Inl show ?thesis
    by (auto simp add: circular_subjects_def)
next
  case (Inr b)
  then show ?thesis
    by (auto simp add: circular_subjects_def)
qed

lemma is_circular_returns: "\<exists>b. is_circular nlp text1 text2 = Inr b"
proof -
  obtain swapped where a: "circular_swapped text1 text2 = Inr swapped"
    using circular_swapped_returns by blast
  obtain related where b: "circular_subjects text1 text2 = Inr related"
    using circular_subjects_returns by blast
  obtain reworded where c: "circular_reworded nlp text1 text2 = Inr reworded"
    using circular_reworded_returns by blast
  show ?thesis
    by (auto simp add: is_circular_def a b c)
qed

lemma circular_issue_type:
  "field (circular_issue description ids suggestions) ''type'' = Some (Str ''circular_reasoning'')"
  by (simp add: field_def circular_issue_def)

lemma returns_all_Inr [simp]: "returns_all P (Inr issues) = list_all P issues"
  by (simp add: returns_all_def)

lemma returns_all_Inl [simp]: "returns_all P (Inl e) = False"
  by (simp add: returns_all_def)

lemma returns_allE:
  assumes "returns_all P m"
  obtains issues where "m = Inr issues" and "list_all P issues"
  using assms by (cases m) simp_all

lemma has_type_circular_issue [simp]:
  "has_type ''circular_reasoning'' (circular_issue description ids suggestions)"
  by (simp add: has_type_def circular_issue_type)

lemma adjacent_loop_returns:
  "\<forall>i \<in> set is. Suc i < length ss \<Longrightarrow> list_all (has_type ''circular_reasoning'') acc \<Longrightarrow>
   returns_all (has_type ''circular_reasoning'') (adjacent_loop nlp ss is acc)"
proof (induction "is" arbitrary: acc)
  case Nil
  then show ?case by simp
next
  case (Cons i "is")
  from Cons.prems have i: "Suc i < length ss" and rest: "\<forall>k \<in> set is. Suc k < length ss"
    by simp_all
  from i have cur: "py_index ss (int i) = Inr (ss ! i)"
    by (simp add: py_index_nth)
  from i have nxt: "py_index ss (int i + 1) = Inr (ss ! Suc i)"
    by (rule py_index_Suc)
  obtain forwards where f: "is_circular nlp (lower (step_text (ss ! i)))
      (lower (step_text (ss ! Suc i))) = Inr forwards"
    using is_circular_returns by blast
  obtain backwards where g: "is_circular nlp (lower (step_text (ss ! Suc i)))
      (lower (step_text (ss ! i))) = Inr backwards"
    using is_circular_returns by blast
  show ?case
    using Cons.prems(2) rest
    by (auto simp add: cur nxt f g Let_def intro!: Cons.IH)
qed

lemma repeats_loop_returns:
  "list_all (has_type ''circular_reasoning'') acc \<Longrightarrow>
   returns_all (has_type ''circular_reasoning'') (repeats_loop nlp ss i rest seen acc)"
proof (induction rest arbitrary: i seen acc)
  case Nil
  then show ?case by simp
next
  case (Cons step rest)
  have nxt: "Suc 0 < length ss \<Longrightarrow> py_index ss 1 = Inr (ss ! 1)"
    using py_index_nth [of 1 ss] by simp
  show ?case
    using Cons.prems
    by (auto simp add: nxt Let_def intro!: Cons.IH split: option.splits)
qed

lemma find_circular_reasoning_returns:
  "returns_all (has_type ''circular_reasoning'') (find_circular_reasoning nlp chain)"
proof -
  have "returns_all (has_type ''circular_reasoning'')
      (repeats_loop nlp (steps chain) 0 (steps chain) Map.empty [])"
    by (rule repeats_loop_returns) simp
  then obtain issues where
    a: "repeats_loop nlp (steps chain) 0 (steps chain) Map.empty [] = Inr issues" and
    b: "list_all (has_type ''circular_reasoning'') issues"
    by (rule returns_allE)
  have "\<forall>i \<in> set [0..<length (steps chain) - 1]. Suc i < length (steps chain)"
    by auto
  from adjacent_loop_returns [OF this b] b show ?thesis
    by (simp add: find_circular_reasoning_def a)
qed

section \<open>The types of the issues of the other passes\<close>

lemma has_type_unique: "has_type a x \<Longrightarrow> has_type b x \<Longrightarrow> a = b"
  by (simp add: has_type_def)

lemma has_type_support_issue [simp]: "has_type ''consider_adding_support'' (support_issue step)"
  by (simp add: has_type_def support_issue_type)

lemma has_type_planning_issue [simp]: "has_type ''planning_analysis'' planning_issue"
  by (simp add: has_type_def planning_issue_type)

lemma has_type_assumption_issue [simp]:
  "has_type ''potential_assumption'' (assumption_issue step confidence)"
  by (simp add: has_type_def assumption_issue_type)

lemma has_type_generalization_issue [simp]:
  "has_type ''hasty_generalization'' (generalization_issue step confidence)"
  by (simp add: has_type_def field_def generalization_issue_def)

lemma has_type_contradiction_issue [simp]:
  "has_type ''contradiction'' (contradiction_issue rel source target)"
  by (simp add: has_type_def field_def contradiction_issue_def)

lemma find_unsupported_claims_types:
  "x \<in> set (find_unsupported_claims chain) \<Longrightarrow>
   has_type ''consider_adding_support'' x \<or> has_type ''planning_analysis'' x \<or>
   has_type ''potential_assumption'' x"
proof -
  assume x: "x \<in> set (find_unsupported_claims chain)"
  have s: "x \<in> set (support_loop chain (steps chain) []) \<Longrightarrow>
      has_type ''consider_adding_support'' x"
    using support_loop_elems [of chain "steps chain" "[]"] by auto
  have a: "x \<in> set (concat (map expected_assumptions (steps chain))) \<Longrightarrow>
      has_type ''potential_assumption'' x"
    using expected_assumptions_elems by fastforce
  from x s a show ?thesis
    unfolding find_unsupported_claims_def Let_def assumption_loop_eq
    by (auto split: if_splits)
qed

lemma generalization_loop_types:
  "list_all (has_type ''hasty_generalization'') acc \<Longrightarrow>
   list_all (has_type ''hasty_generalization'') (generalization_loop chain step t inds acc)"
proof (induction inds arbitrary: acc)
  case Nil
  then show ?case by simp
next
  case (Cons ind inds)
  obtain indicator confidence where ind: "ind = (indicator, confidence)"
    by (cases ind)
  from Cons.prems show ?case
    unfolding ind by (auto simp add: Let_def intro!: Cons.IH)
qed

lemma hasty_loop_types:
  "list_all (has_type ''hasty_generalization'') acc \<Longrightarrow>
   list_all (has_type ''hasty_generalization'') (hasty_loop chain ss acc)"
proof (induction ss arbitrary: acc)
  case Nil
  then show ?case by simp
next
  case (Cons step rest)
  from Cons.prems show ?case
    by (auto simp add: Let_def intro!: Cons.IH generalization_loop_types)
qed

lemma find_hasty_generalizations_types:
  "list_all (has_type ''hasty_generalization'') (find_hasty_generalizations chain)"
  unfolding find_hasty_generalizations_def by (rule hasty_loop_types) simp

lemma find_contradictions_returns:
  "relationships_resolve chain \<Longrightarrow>
   returns_all (has_type ''contradiction'') (find_contradictions chain)"
  by (simp add: find_contradictions_eq list_all_iff expected_contradiction_def)

section \<open>The emotional-reasoning pass\<close>

lemma supported_by_emotion_returns:
  "\<forall>r \<in> set rels. 1 \<le> source_id r \<and> source_id r \<le> int (length ss) \<Longrightarrow>
   \<exists>b. supported_by_emotion ss step rels = Inr b"
proof (induction rels)
  case Nil
  then show ?case by auto
next
  case (Cons r rels)
  from Cons.prems have "0 \<le> source_id r - 1 \<and> source_id r - 1 < int (length ss)"
    by simp
  then have src: "py_index ss (source_id r - 1) = Inr (ss ! nat (source_id r - 1))"
    by (simp add: py_index_def)
  from Cons.IH Cons.prems obtain b where rest: "supported_by_emotion ss step rels = Inr b"
    by auto
  show ?case
  proof (cases "rel_type r = SUPPORTS \<and> target_id r = step_id step \<and>
      any_in emotional_words (lower (step_text (ss ! nat (source_id r - 1))))")
    case True
    then have "supported_by_emotion ss step (r # rels) = Inr True"
      by (simp add: src)
    then show ?thesis
      by blast
  next
    case False
    then have "supported_by_emotion ss step (r # rels) = Inr b"
      by (auto simp add: src rest)
    then show ?thesis
      by blast
  qed
qed

lemma supported_by_emotion_no_supports:
  "\<forall>r \<in> set rels. rel_type r \<noteq> SUPPORTS \<Longrightarrow> supported_by_emotion ss step rels = Inr False"
  by (induction rels) simp_all

lemma has_type_emotional_issue [simp]:
  "has_type ''emotional_reasoning'' (emotional_issue desc i medium)"
  by (simp add: has_type_def field_def emotional_issue_def)

lemma emotional_issue_severity:
  "field (emotional_issue desc i medium) ''severity'' =
     Some (Str (if medium then ''medium'' else ''low''))"
  by (simp add: field_def emotional_issue_def)

lemma emotional_step_returns:
  assumes "i < length (steps chain)"
    and "supported_by_emotion (steps chain) step (relationships chain) = Inr b"
  shows "returns_all
     (\<lambda>x. has_type ''emotional_reasoning'' x \<and>
          field x ''severity'' =
            Some (Str (if list_ex (\<lambda>r. source_id r = step_id step \<and> rel_type r = SUPPORTS)
                            (relationships chain) \<or> b
                       then ''medium'' else ''low'')))
     (emotional_step chain i step)"
proof -
  have prev: "0 < i \<Longrightarrow> py_index (steps chain) (int i - 1) = Inr (steps chain ! (i - 1))"
    using assms(1) py_index_nth [of "i - 1" "steps chain"] by (simp add: of_nat_diff)
  show ?thesis
    unfolding emotional_step_def Let_def
    by (simp add: prev assms(2) emotional_issue_severity)
qed

lemma emotional_loop_returns:
  assumes step: "\<And>i step. i < length (steps chain) \<Longrightarrow> returns_all P (emotional_step chain i step)"
  shows "i + length rest \<le> length (steps chain) \<Longrightarrow> list_all P acc \<Longrightarrow>
    returns_all P (emotional_loop chain i rest acc)"
proof (induction rest arbitrary: i acc)
  case Nil
  then show ?case by simp
next
  case (Cons s rest)
  from Cons.prems(1) have "i < length (steps chain)"
    by simp
  then have "returns_all P (emotional_step chain i s)"
    by (rule step)
  then obtain new where new: "emotional_step chain i s = Inr new" "list_all P new"
    by (rule returns_allE)
  from Cons.prems(1) have "Suc i + length rest \<le> length (steps chain)"
    by simp
  moreover from Cons.prems(2) new(2) have "list_all P (acc @ new)"
    by simp
  ultimately have "returns_all P (emotional_loop chain (Suc i) rest (acc @ new))"
    by (rule Cons.IH)
  then show ?case
    by (simp add: new(1))
qed

lemma returns_all_mono:
  "returns_all P m \<Longrightarrow> (\<And>x. P x \<Longrightarrow> Q x) \<Longrightarrow> returns_all Q m"
  by (cases m) (auto simp add: list_all_iff)

lemma well_formed_sources:
  assumes "well_formed chain"
  shows "\<forall>r \<in> set (relationships chain).
    1 \<le> source_id r \<and> source_id r \<le> int (length (steps chain))"
proof
  fix r assume "r \<in> set (relationships chain)"
  with assms have "get_step chain (source_id r) \<noteq> None"
    by (simp add: well_formed_def relationships_resolve_def)
  then obtain s where "s \<in> set (steps chain)" "step_id s = source_id r"
    unfolding get_step_def find_None_iff by auto
  then have "source_id r \<in> set (map step_id (steps chain))"
    by force
  also from assms have "map step_id (steps chain) = map int [1..<Suc (length (steps chain))]"
    by (simp add: well_formed_def)
  finally show "1 \<le> source_id r \<and> source_id r \<le> int (length (steps chain))"
    by auto
qed

lemma find_emotional_reasoning_returns:
  assumes "well_formed chain"
  shows "returns_all (has_type ''emotional_reasoning'') (find_emotional_reasoning chain)"
  unfolding find_emotional_reasoning_def
proof (rule emotional_loop_returns)
  fix i and step :: ReasoningStep
  assume i: "i < length (steps chain)"
  from supported_by_emotion_returns [OF well_formed_sources [OF assms]] obtain b where
    "supported_by_emotion (steps chain) step (relationships chain) = Inr b"
    by blast
  from emotional_step_returns [OF i this]
  show "returns_all (has_type ''emotional_reasoning'') (emotional_step chain i step)"
    by (rule returns_all_mono) simp
qed simp_all

lemma find_emotional_reasoning_low:
  assumes "\<forall>r \<in> set (relationships chain). rel_type r \<noteq> SUPPORTS"
  shows "returns_all
     (\<lambda>x. has_type ''emotional_reasoning'' x \<and> field x ''severity'' = Some (Str ''low''))
     (find_emotional_reasoning chain)"
  unfolding find_emotional_reasoning_def
proof (rule emotional_loop_returns)
  fix i and step :: ReasoningStep
  assume i: "i < length (steps chain)"
  have none: "\<not> list_ex (\<lambda>r. source_id r = step_id step \<and> rel_type r = SUPPORTS)
      (relationships chain)"
    using assms by (simp add: list_ex_iff)
  from emotional_step_returns [OF i supported_by_emotion_no_supports [OF assms], of step]
  show "returns_all
     (\<lambda>x. has_type ''emotional_reasoning'' x \<and> field x ''severity'' = Some (Str ''low''))
     (emotional_step chain i step)"
    by (rule returns_all_mono) (simp add: none)
qed simp_all

section \<open>All detectors\<close>

lemma analyze_chain_eq:
  assumes "find_circular_reasoning nlp chain = Inr issues2"
    and "find_contradictions chain = Inr issues4"
    and "find_emotional_reasoning chain = Inr issues5"
  shows "analyze_chain nlp chain =
     Inr (find_unsupported_claims chain @ issues2 @ find_hasty_generalizations chain @
          issues4 @ issues5)"
  by (simp add: analyze_chain_def Let_def assms)

lemma analyze_chain_returns:
  assumes "well_formed chain"
  shows "\<exists>issues. analyze_chain nlp chain = Inr issues"
proof -
  from find_circular_reasoning_returns [of nlp chain] obtain issues2 where
    a: "find_circular_reasoning nlp chain = Inr issues2"
    by (rule returns_allE)
  from assms have "relationships_resolve chain"
    by (simp add: well_formed_def)
  from find_contradictions_returns [OF this] obtain issues4 where
    b: "find_contradictions chain = Inr issues4"
    by (rule returns_allE)
  from find_emotional_reasoning_returns [OF assms] obtain issues5 where
    c: "find_emotional_reasoning chain = Inr issues5"
    by (rule returns_allE)
  from analyze_chain_eq [OF a b c] show ?thesis
    by blast
qed

lemma relationships_parse_text_contradicts:
  "\<forall>r \<in> set (relationships (parse_text nlp inp)). rel_type r = CONTRADICTS"
  unfolding set_rels_parse_text [of nlp inp] by auto

lemma well_formed_parse_text: "well_formed (parse_text nlp inp)"
proof -
  let ?c = "parse_text nlp inp"
  have "get_step ?c (source_id r) \<noteq> None \<and> get_step ?c (target_id r) \<noteq> None"
    if "r \<in> set (relationships ?c)" for r
  proof -
    from that obtain i j where ij: "i < j" "j < length (steps ?c)"
      "r = \<lparr>source_id = step_id (steps ?c ! i), target_id = step_id (steps ?c ! j),
            rel_type = CONTRADICTS, rel_confidence = 1\<rparr>"
      unfolding set_rels_parse_text [of nlp inp] by blast
    have "steps ?c ! i \<in> set (steps ?c)" "steps ?c ! j \<in> set (steps ?c)"
      using ij(1,2) by simp_all
    then show ?thesis
      unfolding get_step_def find_None_iff ij(3) by auto
  qed
  then show ?thesis
    by (simp add: well_formed_def relationships_resolve_def ids_parse_text)
qed

lemma analyze_chain_emotional_low:
  assumes wf: "well_formed chain"
    and rels: "\<forall>r \<in> set (relationships chain). rel_type r \<noteq> SUPPORTS"
  shows "\<exists>issues. analyze_chain nlp chain = Inr issues \<and>
     (\<forall>x \<in> set issues. has_type ''emotional_reasoning'' x \<longrightarrow>
        field x ''severity'' = Some (Str ''low''))"
proof -
  from find_circular_reasoning_returns [of nlp chain] obtain issues2 where
    a: "find_circular_reasoning nlp chain = Inr issues2" and
    a': "list_all (has_type ''circular_reasoning'') issues2"
    by (rule returns_allE)
  from wf have "relationships_resolve chain"
    by (simp add: well_formed_def)
  from find_contradictions_returns [OF this] obtain issues4 where
    b: "find_contradictions chain = Inr issues4" and
    b': "list_all (has_type ''contradiction'') issues4"
    by (rule returns_allE)
  from find_emotional_reasoning_low [OF rels] obtain issues5 where
    c: "find_emotional_reasoning chain = Inr issues5" and
    c': "list_all (\<lambda>x. has_type ''emotional_reasoning'' x \<and>
           field x ''severity'' = Some (Str ''low'')) issues5"
    by (rule returns_allE)
  let ?all = "find_unsupported_claims chain @ issues2 @ find_hasty_generalizations chain @
      issues4 @ issues5"
  have "field x ''severity'' = Some (Str ''low'')"
    if x: "x \<in> set ?all" and ty: "has_type ''emotional_reasoning'' x" for x
  proof -
    have "x \<notin> set (find_unsupported_claims chain)"
      using find_unsupported_claims_types [of x chain] has_type_unique [OF ty] by auto
    moreover have "x \<notin> set issues2"
      using a' has_type_unique [OF ty] by (auto simp add: list_all_iff)
    moreover have "x \<notin> set (find_hasty_generalizations chain)"
      using find_hasty_generalizations_types [of chain] has_type_unique [OF ty]
      by (auto simp add: list_all_iff)
    moreover have "x \<notin> set issues4"
      using b' has_type_unique [OF ty] by (auto simp add: list_all_iff)
    ultimately have "x \<in> set issues5"
      using x by auto
    with c' show ?thesis
      by (simp add: list_all_iff)
  qed
  with analyze_chain_eq [OF a b c] show ?thesis
    by blast
qed

text \<open>Claim C10. The parser creates CONTRADICTS relationships only, the analysis of a parsed
  chain returns, and every \<open>emotional_reasoning\<close> issue among the issues that it returns has
  the severity \<open>low\<close>: the severity \<open>medium\<close> needs a SUPPORTS relationship from the step or
  to the step.\<close>

theorem parsed_emotional_reasoning_low:
  "(\<forall>r \<in> set (relationships (parse_text nlp inp)). rel_type r = CONTRADICTS) \<and>
   (\<exists>issues. analyze_chain nlp (parse_text nlp inp) = Inr issues \<and>
      (\<forall>x \<in> set issues. field x ''type'' = Some (Str ''emotional_reasoning'') \<longrightarrow>
         field x ''severity'' = Some (Str ''low'')))"
proof -
  have rels: "\<forall>r \<in> set (relationships (parse_text nlp inp)). rel_type r = CONTRADICTS"
    by (rule relationships_parse_text_contradicts)
  then have "\<forall>r \<in> set (relationships (parse_text nlp inp)). rel_type r \<noteq> SUPPORTS"
    by simp
  from analyze_chain_emotional_low [OF well_formed_parse_text this, of nlp] rels
  show ?thesis
    by (simp add: has_type_def)
qed

theorem parsed_emotional_reasoning_low_witness:
  "\<exists>issues.
     analyze_chain sample_nlp
       (parse_text sample_nlp (''I feel sad today'' @ [newline] @ ''Therefore I hate rain'')) =
       Inr issues \<and>
     emotional_issue ''Step 2 contains emotional language that might weaken the argument'' 1 False
       \<in> set issues \<and>
     field
       (emotional_issue ''Step 2 contains emotional language that might weaken the argument'' 1
          False) ''severity'' = Some (Str ''low'')"
proof -
  define c where "c = parse_text sample_nlp
      (''I feel sad today'' @ [newline] @ ''Therefore I hate rain'')"
  define e where "e =
      emotional_issue ''Step 2 contains emotional language that might weaken the argument'' 1 False"
  have mem: "case analyze_chain sample_nlp c of Inl err \<Rightarrow> False | Inr xs \<Rightarrow> e \<in> set xs"
    unfolding c_def e_def by code_simp
  have ty: "field e ''type'' = Some (Str ''emotional_reasoning'')"
    unfolding e_def by (simp add: field_def emotional_issue_def)
  from parsed_emotional_reasoning_low [of sample_nlp
      "''I feel sad today'' @ [newline] @ ''Therefore I hate rain''"]
  obtain issues where
    a: "analyze_chain sample_nlp c = Inr issues" and
    b: "\<forall>x \<in> set issues. field x ''type'' = Some (Str ''emotional_reasoning'') \<longrightarrow>
         field x ''severity'' = Some (Str ''low'')"
    unfolding c_def by blast
  from mem a have m: "e \<in> set issues"
    by simp
  with b ty have "field e ''severity'' = Some (Str ''low'')"
    by blast
  with a m show ?thesis
    unfolding c_def e_def by blast
qed

section \<open>Issues without step ids\<close>

lemma support_issue_no_step_ids:
  "field (support_issue step) ''step'' = None \<and> field (support_issue step) ''step_ids'' = None"
  by (simp add: field_def support_issue_def)

lemma planning_issue_no_step_ids:
  "field planning_issue ''step'' = None \<and> field planning_issue ''step_ids'' = None"
  by (simp add: field_def planning_issue_def)

lemma assumption_issue_no_step_ids:
  "field (assumption_issue step confidence) ''step'' = None \<and>
   field (assumption_issue step confidence) ''step_ids'' = None"
  by (simp add: field_def assumption_issue_def)

text \<open>Claim C7 does not hold of the code. The analysis of the one-step chain parsed from
  \<open>All drivers must be rude\<close> returns a \<open>potential_assumption\<close> issue that has neither a
  \<open>step\<close> nor a \<open>step_ids\<close> key; so does the analysis of \<open>So the bridge is safe\<close> with a
  \<open>consider_adding_support\<close> issue, and the analysis of the two steps
  \<open>The exam is on Friday\<close>, \<open>So I will study tonight\<close> with a \<open>planning_analysis\<close>
  issue.\<close>

theorem analyze_chain_issues_without_step_ids:
  "(case analyze_chain sample_nlp (parse_text sample_nlp ''All drivers must be rude'') of
      Inl e \<Rightarrow> False
    | Inr issues \<Rightarrow>
        list_ex (\<lambda>x. field x ''type'' = Some (Str ''potential_assumption'') \<and>
                    field x ''step'' = None \<and> field x ''step_ids'' = None) issues) \<and>
   (case analyze_chain sample_nlp (parse_text sample_nlp ''So the bridge is safe'') of
      Inl e \<Rightarrow> False
    | Inr issues \<Rightarrow>
        list_ex (\<lambda>x. field x ''type'' = Some (Str ''consider_adding_support'') \<and>
                    field x ''step'' = None \<and> field x ''step_ids'' = None) issues) \<and>
   (case analyze_chain sample_nlp
           (parse_text sample_nlp
              (''The exam is on Friday'' @ [newline] @ ''So I will study tonight'')) of
      Inl e \<Rightarrow> False
    | Inr issues \<Rightarrow>
        list_ex (\<lambda>x. field x ''type'' = Some (Str ''planning_analysis'') \<and>
                    field x ''step'' = None \<and> field x ''step_ids'' = None) issues)"
  by code_simp

section \<open>Chains with no step or one step\<close>

lemma blank_lines_surviving:
  "list_all (\<lambda>line. strip line = []) (split_char newline inp) \<Longrightarrow> surviving_lines inp = []"
  by (simp add: surviving_lines_def list_all_iff filter_empty_conv strip_ordinal_Nil strip_Nil)

lemma no_steps_no_relationships:
  "steps (parse_text nlp inp) = [] \<Longrightarrow> relationships (parse_text nlp inp) = []"
proof -
  assume "steps (parse_text nlp inp) = []"
  then have "set (relationships (parse_text nlp inp)) = {}"
    unfolding set_rels_parse_text [of nlp inp] by simp
  then show ?thesis
    by simp
qed

lemma well_formed_no_steps:
  assumes "well_formed chain" and "steps chain = []"
  shows "relationships chain = []"
proof (rule ccontr)
  assume "relationships chain \<noteq> []"
  then obtain r where "r \<in> set (relationships chain)"
    by (cases "relationships chain") auto
  with assms(1) have "get_step chain (source_id r) \<noteq> None"
    by (simp add: well_formed_def relationships_resolve_def)
  with assms(2) show False
    by (simp add: get_step_def)
qed

lemma find_unsupported_claims_no_steps:
  "steps chain = [] \<Longrightarrow> find_unsupported_claims chain = []"
  by (simp add: find_unsupported_claims_def Let_def any_in_def casual_terms_def)

lemma analyze_chain_no_steps:
  assumes "steps chain = []" and "relationships chain = []"
  shows "analyze_chain nlp chain = Inr []"
proof -
  have a: "find_circular_reasoning nlp chain = Inr []"
    by (simp add: find_circular_reasoning_def assms(1))
  have b: "find_contradictions chain = Inr []"
    by (simp add: find_contradictions_def assms(2))
  have c: "find_emotional_reasoning chain = Inr []"
    by (simp add: find_emotional_reasoning_def assms(1))
  have d: "find_hasty_generalizations chain = []"
    by (simp add: find_hasty_generalizations_def assms(1))
  from analyze_chain_eq [OF a b c] show ?thesis
    by (simp add: d find_unsupported_claims_no_steps [OF assms(1)])
qed

lemma get_suggestions_no_steps: "steps chain = [] \<Longrightarrow> get_suggestions polarity_of chain = Inr []"
  by (simp add: get_suggestions_def)

text \<open>Claim C4, amended. The parse of an input with no non-blank line is a chain with no
  step and no relationship. For a chain of the data model with no step, the analysis and the
  secondary scorer return the empty list. For a chain of the data model with exactly one
  step, the analysis and the secondary scorer return a list and do not raise; the list need
  not be empty.\<close>

theorem small_chains_handled:
  "(list_all (\<lambda>line. strip line = []) (split_char newline inp) \<longrightarrow>
      steps (parse_text nlp inp) = [] \<and> relationships (parse_text nlp inp) = []) \<and>
   (well_formed chain0 \<and> steps chain0 = [] \<longrightarrow>
      analyze_chain nlp chain0 = Inr [] \<and> get_suggestions polarity_of chain0 = Inr []) \<and>
   (well_formed chain1 \<and> length (steps chain1) = 1 \<longrightarrow>
      (\<exists>issues. analyze_chain nlp chain1 = Inr issues) \<and>
      (\<exists>suggestions. get_suggestions polarity_of chain1 = Inr suggestions))"
proof (intro conjI impI)
  assume "list_all (\<lambda>line. strip line = []) (split_char newline inp)"
  then have "surviving_lines inp = []"
    by (rule blank_lines_surviving)
  with texts_parse_text [of nlp inp] show s: "steps (parse_text nlp inp) = []"
    by simp
  then show "relationships (parse_text nlp inp) = []"
    by (rule no_steps_no_relationships)
next
  assume a: "well_formed chain0 \<and> steps chain0 = []"
  then have "relationships chain0 = []"
    using well_formed_no_steps by blast
  with a show "analyze_chain nlp chain0 = Inr []"
    by (simp add: analyze_chain_no_steps)
  from a show "get_suggestions polarity_of chain0 = Inr []"
    by (simp add: get_suggestions_no_steps)
next
  assume "well_formed chain1 \<and> length (steps chain1) = 1"
  then show "\<exists>issues. analyze_chain nlp chain1 = Inr issues"
    using analyze_chain_returns by blast
  show "\<exists>suggestions. get_suggestions polarity_of chain1 = Inr suggestions"
    by (simp add: get_suggestions_eq)
qed

theorem small_chains_handled_witness:
  "steps (parse_text sample_nlp ('' '' @ [newline] @ [newline])) = [] \<and>
   relationships (parse_text sample_nlp ('' '' @ [newline] @ [newline])) = [] \<and>
   analyze_chain sample_nlp empty_chain = Inr [] \<and>
   get_suggestions (\<lambda>t. 0) empty_chain = Inr [] \<and>
   (\<exists>issues. analyze_chain sample_nlp (parse_text sample_nlp ''Water is wet'') = Inr issues) \<and>
   (\<exists>suggestions.
      get_suggestions (\<lambda>t. 0) (parse_text sample_nlp ''Water is wet'') = Inr suggestions)"
proof -
  have blank: "list_all (\<lambda>line. strip line = []) (split_char newline ('' '' @ [newline] @ [newline]))"
    by code_simp
  have wf0: "well_formed empty_chain \<and> steps empty_chain = []"
    by (simp add: well_formed_def relationships_resolve_def empty_chain_def)
  have wf1: "well_formed (parse_text sample_nlp ''Water is wet'') \<and>
      length (steps (parse_text sample_nlp ''Water is wet'')) = 1"
    by code_simp
  from small_chains_handled [of "'' '' @ [newline] @ [newline]" sample_nlp empty_chain
      "\<lambda>t. 0" "parse_text sample_nlp ''Water is wet''"] blank wf0 wf1
  show ?thesis
    by blast
qed

text \<open>The sentence of claim C4 on chains with one step does not hold: the one-step chain
  parsed from \<open>All drivers must be rude\<close> has an analysis of two issues, and the secondary
  scorer returns an \<open>emotional_language_positive\<close> suggestion for the one-step chain parsed
  from \<open>1. This is absolutely amazing!\<close>, an input of the repository's tests.\<close>

theorem one_step_chain_has_issues:
  "length (steps (parse_text sample_nlp ''All drivers must be rude'')) = 1 \<and>
   (case analyze_chain sample_nlp (parse_text sample_nlp ''All drivers must be rude'') of
      Inl e \<Rightarrow> False
    | Inr issues \<Rightarrow> length issues = 2) \<and>
   length (steps (parse_text sample_nlp ''1. This is absolutely amazing!'')) = 1 \<and>
   get_suggestions (\<lambda>t. 0) (parse_text sample_nlp ''1. This is absolutely amazing!'') =
     Inr [emotional_language_issue 0 ''positive'']"
  by code_simp

end
